theory Spec2Isabelle
  imports Complex_Main "HOL-Library.Word" "HOL-Library.Log_Nat"
begin

section \<open>Python floats\<close>

text \<open>
  A Python \<open>float\<close> is an IEEE 754 binary64 number.  A finite value is kept as its sign
  bit and its magnitude (so that \<open>-0.0\<close> is a value of its own), next to the two
  infinities and NaN.  One NaN stands for all NaN payloads.  Every arithmetic operation
  computes the exact real result and rounds it once, to nearest, ties to even.
\<close>

datatype pyfloat = Finite bool real | Infinity bool | NaN

fun valof :: "pyfloat \<Rightarrow> real" where
  "valof (Finite s m) = (if s then - m else m)"
| "valof (Infinity s) = 0"
| "valof NaN = 0"

fun is_finite :: "pyfloat \<Rightarrow> bool" where
  "is_finite (Finite s m) = True"
| "is_finite (Infinity s) = False"
| "is_finite NaN = False"

definition pow2 :: "int \<Rightarrow> real" where
  "pow2 k = (if 0 \<le> k then 2 ^ nat k else 1 / 2 ^ nat (- k))"

text \<open>The binary exponent of a positive real: \<open>pow2 (ilog2 m) \<le> m < pow2 (ilog2 m + 1)\<close>.\<close>

definition ilog2 :: "real \<Rightarrow> int" where
  "ilog2 m = (if 1 \<le> m then bitlen \<lfloor>m\<rfloor> - 1 else - bitlen (\<lceil>1 / m\<rceil> - 1))"

definition round_half_even :: "real \<Rightarrow> int" where
  "round_half_even x =
     (let f = \<lfloor>x\<rfloor>; d = x - of_int f
      in if d < 1 / 2 then f else if 1 / 2 < d then f + 1 else if even f then f else f + 1)"

text \<open>
  Rounding of a magnitude to precision \<open>p\<close> with least normal exponent \<open>emin\<close>: the
  spacing of the format at \<open>m\<close> is \<open>pow2 q\<close>, constant below \<open>pow2 emin\<close> (subnormals).
\<close>

definition round_mag :: "nat \<Rightarrow> int \<Rightarrow> real \<Rightarrow> real" where
  "round_mag p emin m =
     (if m = 0 then 0
      else let q = max (ilog2 m) emin - int p + 1
           in of_int (round_half_even (m / pow2 q)) * pow2 q)"

definition make_float :: "nat \<Rightarrow> int \<Rightarrow> int \<Rightarrow> bool \<Rightarrow> real \<Rightarrow> pyfloat" where
  "make_float p emin emax s m =
     (let r = round_mag p emin m
      in if pow2 (emax + 1) \<le> r then Infinity s else Finite s r)"

text \<open>binary64: 53 bits of precision, exponents from -1022 to 1023.\<close>

definition double :: "bool \<Rightarrow> real \<Rightarrow> pyfloat" where
  "double s m = make_float 53 (- 1022) 1023 s m"

text \<open>binary32 (the \<open>f\<close> format of \<open>struct\<close>): 24 bits, exponents from -126 to 127.\<close>

definition single :: "bool \<Rightarrow> real \<Rightarrow> pyfloat" where
  "single s m = make_float 24 (- 126) 127 s m"

text \<open>A float literal of the program text, such as \<open>6.2831853\<close>, is the nearest double.\<close>

definition literal :: "real \<Rightarrow> pyfloat" where
  "literal r = double (r < 0) \<bar>r\<bar>"

fun fneg :: "pyfloat \<Rightarrow> pyfloat" where
  "fneg (Finite s m) = Finite (\<not> s) m"
| "fneg (Infinity s) = Infinity (\<not> s)"
| "fneg NaN = NaN"

fun fadd :: "pyfloat \<Rightarrow> pyfloat \<Rightarrow> pyfloat" where
  "fadd NaN b = NaN"
| "fadd a NaN = NaN"
| "fadd (Infinity s) (Infinity t) = (if s = t then Infinity s else NaN)"
| "fadd (Infinity s) (Finite t n) = Infinity s"
| "fadd (Finite s m) (Infinity t) = Infinity t"
| "fadd (Finite s m) (Finite t n) =
     (let r = valof (Finite s m) + valof (Finite t n)
      in if r = 0 then Finite (s \<and> t) 0 else double (r < 0) \<bar>r\<bar>)"

definition fsub :: "pyfloat \<Rightarrow> pyfloat \<Rightarrow> pyfloat" where
  "fsub a b = fadd a (fneg b)"

fun fmul :: "pyfloat \<Rightarrow> pyfloat \<Rightarrow> pyfloat" where
  "fmul NaN b = NaN"
| "fmul a NaN = NaN"
| "fmul (Infinity s) (Infinity t) = Infinity (s \<noteq> t)"
| "fmul (Infinity s) (Finite t n) = (if n = 0 then NaN else Infinity (s \<noteq> t))"
| "fmul (Finite s m) (Infinity t) = (if m = 0 then NaN else Infinity (s \<noteq> t))"
| "fmul (Finite s m) (Finite t n) = double (s \<noteq> t) (m * n)"

text \<open>
  Division by a divisor that is not zero.  Python raises \<open>ZeroDivisionError\<close> for a zero
  divisor; the two float divisions of this program divide by the constants \<open>20.0\<close>,
  \<open>20000.0\<close> and \<open>2\<close>, so that raise is no branch of the program and the last equation
  is used with \<open>n \<noteq> 0\<close> only.
\<close>

fun fdiv :: "pyfloat \<Rightarrow> pyfloat \<Rightarrow> pyfloat" where
  "fdiv NaN b = NaN"
| "fdiv a NaN = NaN"
| "fdiv (Infinity s) (Infinity t) = NaN"
| "fdiv (Infinity s) (Finite t n) = Infinity (s \<noteq> t)"
| "fdiv (Finite s m) (Infinity t) = Finite (s \<noteq> t) 0"
| "fdiv (Finite s m) (Finite t n) = double (s \<noteq> t) (m / n)"

text \<open>Comparisons: every comparison with NaN is false; \<open>-0.0 == 0.0\<close>.\<close>

fun flt :: "pyfloat \<Rightarrow> pyfloat \<Rightarrow> bool" where
  "flt NaN b = False"
| "flt a NaN = False"
| "flt (Infinity s) (Infinity t) = (s \<and> \<not> t)"
| "flt (Infinity s) (Finite t n) = s"
| "flt (Finite s m) (Infinity t) = (\<not> t)"
| "flt (Finite s m) (Finite t n) = (valof (Finite s m) < valof (Finite t n))"

definition fgt :: "pyfloat \<Rightarrow> pyfloat \<Rightarrow> bool" where
  "fgt a b = flt b a"

fun feq :: "pyfloat \<Rightarrow> pyfloat \<Rightarrow> bool" where
  "feq NaN b = False"
| "feq a NaN = False"
| "feq (Infinity s) (Infinity t) = (s = t)"
| "feq (Infinity s) (Finite t n) = False"
| "feq (Finite s m) (Infinity t) = False"
| "feq (Finite s m) (Finite t n) = (valof (Finite s m) = valof (Finite t n))"

definition fle :: "pyfloat \<Rightarrow> pyfloat \<Rightarrow> bool" where
  "fle a b = (flt a b \<or> feq a b)"

text \<open>
  The builtins \<open>min(a, b)\<close> and \<open>max(a, b)\<close> keep the first argument unless the second
  is strictly smaller (larger).
\<close>

definition py_min :: "pyfloat \<Rightarrow> pyfloat \<Rightarrow> pyfloat" where
  "py_min a b = (if flt b a then b else a)"

definition py_max :: "pyfloat \<Rightarrow> pyfloat \<Rightarrow> pyfloat" where
  "py_max a b = (if fgt b a then b else a)"

section \<open>Errors, bytes and the struct formats\<close>

datatype error =
  RuntimeError | OSError | ValueError | OverflowError | IndexError | StructError
  | ZeroDivisionError

type_synonym byte = "8 word"

text \<open>\<open>int.from_bytes(data, byteorder='little')\<close>, for data of any length.\<close>

fun from_bytes :: "byte list \<Rightarrow> int" where
  "from_bytes [] = 0"
| "from_bytes (b # bs) = uint b + 256 * from_bytes bs"

fun le_bytes :: "nat \<Rightarrow> int \<Rightarrow> byte list" where
  "le_bytes 0 v = []"
| "le_bytes (Suc n) v = word_of_int (v mod 256) # le_bytes n (v div 256)"

text \<open>\<open>value.to_bytes(size, byteorder='little')\<close>: unsigned, raising when it does not fit.\<close>

definition to_bytes :: "int \<Rightarrow> nat \<Rightarrow> error + byte list" where
  "to_bytes v n = (if v < 0 \<or> 256 ^ n \<le> v then Inl OverflowError else Inr (le_bytes n v))"

text \<open>
  \<open>struct.unpack('f', data)[0]\<close>: four bytes in the byte order of the host, little-endian
  on the machines the emulator runs on, decoded as binary32 and widened to a double (which
  is exact).
\<close>

definition unpack_f :: "byte list \<Rightarrow> error + pyfloat" where
  "unpack_f data =
     (if length data \<noteq> 4 then Inl StructError
      else let w = from_bytes data;
               s = (w div 2 ^ 31 = 1);
               e = (w div 2 ^ 23) mod 256;
               f = w mod 2 ^ 23
           in Inr (if e = 255 then (if f = 0 then Infinity s else NaN)
                   else if e = 0 then Finite s (of_int f * pow2 (- 149))
                   else Finite s (of_int (2 ^ 23 + f) * pow2 (e - 150))))"

text \<open>
  \<open>struct.pack('f', value)\<close> in native mode converts the double with a C cast: rounding to
  the nearest binary32, to an infinity when the magnitude is too large, never raising.
\<close>

definition sign_bit :: "bool \<Rightarrow> int" where
  "sign_bit s = (if s then 2 ^ 31 else 0)"

fun float32_bits :: "pyfloat \<Rightarrow> int" where
  "float32_bits NaN = 0x7FC00000"
| "float32_bits (Infinity s) = sign_bit s + 0x7F800000"
| "float32_bits (Finite s m) =
     (case single s m of
        Finite t r \<Rightarrow>
          (if r = 0 then sign_bit t
           else let e = ilog2 r
                in if e < - 126 then sign_bit t + \<lfloor>r / pow2 (- 149)\<rfloor>
                   else sign_bit t + (e + 127) * 2 ^ 23 + (\<lfloor>r / pow2 (e - 23)\<rfloor> - 2 ^ 23))
      | Infinity t \<Rightarrow> sign_bit t + 0x7F800000
      | NaN \<Rightarrow> 0x7FC00000)"

definition pack_f :: "pyfloat \<Rightarrow> byte list" where
  "pack_f x = le_bytes 4 (float32_bits x)"

text \<open>
  True division of two Python ints (\<open>a / b\<close>): the correctly rounded quotient, raising
  when it is too large for a float.
\<close>

definition int_truediv :: "int \<Rightarrow> int \<Rightarrow> error + pyfloat" where
  "int_truediv a b =
     (if b = 0 then Inl ZeroDivisionError
      else case double ((a < 0) \<noteq> (b < 0)) (\<bar>of_int a\<bar> / \<bar>of_int b\<bar>) of
             Finite s m \<Rightarrow> Inr (Finite s m)
           | Infinity s \<Rightarrow> Inl OverflowError
           | NaN \<Rightarrow> Inl OverflowError)"

section \<open>Constants of the program\<close>

definition TAU :: pyfloat where
  "TAU = literal (62831853 / 10000000)"

definition MOHH1_CAMBASE_PTR :: int where "MOHH1_CAMBASE_PTR = 0xD8361C"
definition MOHH1_CAMY :: int where "MOHH1_CAMY = 0x188"
definition MOHH1_CAMX :: int where "MOHH1_CAMX = 0x1A4"
definition MOHH1_FOV :: int where "MOHH1_FOV = 0x1E8"

section \<open>The process handle\<close>

text \<open>
  The raw-memory stream \<open>/proc/<pid>/mem\<close> is the address space of the target: the byte at
  every mapped address.  A read delivers the bytes that are mapped from the address on, at
  most as many as asked for (fewer when the mapped run ends before), and fails when
  nothing is mapped at the address; a write needs every byte of its range mapped.  The
  stream refuses a negative position and one that is no 64-bit file offset.  The buffer
  of the file object is not modelled: a read sees the target's memory as it is, and a
  write reaches it, or fails, at once.
\<close>

type_synonym memory = "int \<Rightarrow> byte option"

fun readable_run :: "memory \<Rightarrow> int \<Rightarrow> nat \<Rightarrow> byte list" where
  "readable_run m a 0 = []"
| "readable_run m a (Suc n) =
     (case m a of None \<Rightarrow> [] | Some b \<Rightarrow> b # readable_run m (a + 1) n)"

definition seek_error :: "int \<Rightarrow> error option" where
  "seek_error address =
     (if address < 0 then Some OSError
      else if 2 ^ 63 \<le> address then Some ValueError
      else None)"

definition stream_read :: "memory \<Rightarrow> int \<Rightarrow> nat \<Rightarrow> error + byte list" where
  "stream_read m address n =
     (case seek_error address of
        Some e \<Rightarrow> Inl e
      | None \<Rightarrow>
          if 0 < n \<and> m address = None then Inl OSError
          else Inr (readable_run m address n))"

definition overwrite :: "memory \<Rightarrow> int \<Rightarrow> byte list \<Rightarrow> memory" where
  "overwrite m address data =
     (\<lambda>x. if address \<le> x \<and> x < address + int (length data)
          then Some (data ! nat (x - address)) else m x)"

definition stream_write :: "memory \<Rightarrow> int \<Rightarrow> byte list \<Rightarrow> error + memory" where
  "stream_write m address data =
     (case seek_error address of
        Some e \<Rightarrow> Inl e
      | None \<Rightarrow>
          if list_all (\<lambda>i. m (address + int i) \<noteq> None) [0..<length data]
          then Inr (overwrite m address data)
          else Inl OSError)"

text \<open>
  What the modelled methods print, one constructor for each message, carrying the values
  the message formats.  The two lines that announce a candidate region are one message,
  and so are the two lines that show its first bytes.
\<close>

datatype message =
    BaseNotEstablished
  | ScanningRegions
  | FoundPotentialRegion int int
  | FoundNonZeroContent int "byte list"
  | FoundSignature
  | ErrorReadingMemory error
  | NoSuitableRegion

text \<open>
  The effects of a method, in the order they happen: accesses to the memory stream (a
  seek followed by a read or a write) and printed messages.
\<close>

datatype event = MemRead int nat | MemWrite int "byte list" | Print message

text \<open>
  The object \<open>ProcessMemory\<close>: the two streams (\<open>None\<close> when the process was not found,
  or after \<open>close\<close>), the lines of the mapping table, and the base address.  The field
  \<open>events\<close> is not a field of the class: it records the effects.
\<close>

record ProcessMemory =
  mem_file :: "memory option"
  maps_file :: "string list option"
  game_memory_base :: "int option"
  events :: "event list"

type_synonym 'a outcome = "(error + 'a) \<times> ProcessMemory"

definition emit :: "event \<Rightarrow> ProcessMemory \<Rightarrow> ProcessMemory" where
  "emit ev s = s\<lparr>events := events s @ [ev]\<rparr>"

definition read_memory :: "int \<Rightarrow> nat \<Rightarrow> ProcessMemory \<Rightarrow> (byte list) outcome" where
  "read_memory address n s =
     (case mem_file s of
        None \<Rightarrow> (Inl RuntimeError, s)
      | Some m \<Rightarrow> (stream_read m address n, emit (MemRead address n) s))"

definition write_memory :: "int \<Rightarrow> byte list \<Rightarrow> ProcessMemory \<Rightarrow> unit outcome" where
  "write_memory address data s =
     (case mem_file s of
        None \<Rightarrow> (Inl RuntimeError, s)
      | Some m \<Rightarrow>
          (case stream_write m address data of
             Inl e \<Rightarrow> (Inl e, emit (MemWrite address data) s)
           | Inr m' \<Rightarrow> (Inr (), emit (MemWrite address data) (s\<lparr>mem_file := Some m'\<rparr>))))"

definition read_int :: "int \<Rightarrow> nat \<Rightarrow> ProcessMemory \<Rightarrow> int outcome" where
  "read_int address n s =
     (case read_memory address n s of
        (Inl e, s') \<Rightarrow> (Inl e, s')
      | (Inr data, s') \<Rightarrow> (Inr (from_bytes data), s'))"

definition write_int :: "int \<Rightarrow> int \<Rightarrow> nat \<Rightarrow> ProcessMemory \<Rightarrow> unit outcome" where
  "write_int address v n s =
     (case to_bytes v n of
        Inl e \<Rightarrow> (Inl e, s)
      | Inr data \<Rightarrow> write_memory address data s)"

text \<open>\<open>not self.game_memory_base\<close> holds for \<open>None\<close> and for the address 0.\<close>

definition established :: "ProcessMemory \<Rightarrow> bool" where
  "established s = (case game_memory_base s of None \<Rightarrow> False | Some b \<Rightarrow> b \<noteq> 0)"

definition base :: "ProcessMemory \<Rightarrow> int" where
  "base s = (case game_memory_base s of None \<Rightarrow> 0 | Some b \<Rightarrow> b)"

section \<open>Region discovery\<close>

record region =
  start_addr :: int
  region_size :: int
  perms :: string
  path :: string

text \<open>\<open>str.split()\<close>: the words between runs of white space.\<close>

definition is_space :: "char \<Rightarrow> bool" where
  "is_space c = (let n = (of_char c :: nat) in (9 \<le> n \<and> n \<le> 13) \<or> (28 \<le> n \<and> n \<le> 32))"

fun split_words :: "string \<Rightarrow> string \<Rightarrow> string list" where
  "split_words w [] = (if w = [] then [] else [w])"
| "split_words w (c # cs) =
     (if is_space c then (if w = [] then split_words [] cs else w # split_words [] cs)
      else split_words (w @ [c]) cs)"

definition split :: "string \<Rightarrow> string list" where
  "split line = split_words [] line"

text \<open>\<open>str.split(sep)\<close> for a separator of one character: empty pieces are kept.\<close>

fun split_on :: "char \<Rightarrow> string \<Rightarrow> string list" where
  "split_on sep [] = [[]]"
| "split_on sep (c # cs) =
     (if c = sep then [] # split_on sep cs
      else (case split_on sep cs of
              [] \<Rightarrow> [[c]]
            | w # ws \<Rightarrow> (c # w) # ws))"

text \<open>
  \<open>int(s, 16)\<close> on a string without white space: an optional sign, an optional prefix
  \<open>0x\<close>, then hexadecimal digits, single underscores allowed between them and after the
  prefix.
\<close>

definition hex_digit :: "char \<Rightarrow> int option" where
  "hex_digit c =
     (let n = (of_char c :: nat)
      in if 48 \<le> n \<and> n \<le> 57 then Some (int n - 48)
         else if 97 \<le> n \<and> n \<le> 102 then Some (int n - 87)
         else if 65 \<le> n \<and> n \<le> 70 then Some (int n - 55)
         else None)"

fun hex_value :: "int \<Rightarrow> string \<Rightarrow> int option" where
  "hex_value acc [] = Some acc"
| "hex_value acc (c # cs) =
     (if c = CHR ''_'' then
        (case cs of
           [] \<Rightarrow> None
         | d # ds \<Rightarrow> if d = CHR ''_'' then None else hex_value acc cs)
      else (case hex_digit c of
              None \<Rightarrow> None
            | Some v \<Rightarrow> hex_value (16 * acc + v) cs))"

definition int16 :: "string \<Rightarrow> error + int" where
  "int16 str =
     (let (neg, s1) = (case str of
                         [] \<Rightarrow> (False, [])
                       | c # cs \<Rightarrow> if c = CHR ''-'' then (True, cs)
                                   else if c = CHR ''+'' then (False, cs)
                                   else (False, str));
          s2 = (case s1 of
                  c # x # cs \<Rightarrow>
                    if c = CHR ''0'' \<and> (x = CHR ''x'' \<or> x = CHR ''X'')
                    then (case cs of
                            [] \<Rightarrow> []
                          | u # us \<Rightarrow> if u = CHR ''_'' then us else cs)
                    else s1
                | _ \<Rightarrow> s1)
      in case s2 of
           [] \<Rightarrow> Inl ValueError
         | c # cs \<Rightarrow>
             if c = CHR ''_'' then Inl ValueError
             else (case hex_value 0 s2 of
                     None \<Rightarrow> Inl ValueError
                   | Some v \<Rightarrow> Inr (if neg then - v else v)))"

text \<open>The first pass of \<open>find_game_memory\<close>: one region for each well-formed line.\<close>

fun parse_maps :: "string list \<Rightarrow> error + region list" where
  "parse_maps [] = Inr []"
| "parse_maps (line # rest) =
     (let parts = split line
      in if length parts < 6 then parse_maps rest
         else let addr_range = split_on (CHR ''-'') (parts ! 0)
              in if length addr_range \<noteq> 2 then parse_maps rest
                 else (case int16 (addr_range ! 0) of
                         Inl e \<Rightarrow> Inl e
                       | Inr start \<Rightarrow>
                           (case int16 (addr_range ! 1) of
                              Inl e \<Rightarrow> Inl e
                            | Inr end_addr \<Rightarrow>
                                (case parse_maps rest of
                                   Inl e \<Rightarrow> Inl e
                                 | Inr regions \<Rightarrow>
                                     Inr (\<lparr>start_addr = start,
                                           region_size = end_addr - start,
                                           perms = parts ! 1,
                                           path = (if 5 < length parts then last parts else [])\<rparr>
                                          # regions)))))"

definition TARGET_SIZE :: int where "TARGET_SIZE = 32 * 1024 * 1024"
definition SIZE_TOLERANCE :: pyfloat where "SIZE_TOLERANCE = literal (1 / 10)"
definition MIN_SIZE :: int where "MIN_SIZE = 1 * 1024 * 1024"

text \<open>\<open>any(test_data)\<close>\<close>

definition any_nonzero :: "byte list \<Rightarrow> bool" where
  "any_nonzero data = list_ex (\<lambda>b. b \<noteq> 0) data"

text \<open>
  The test \<open>test_data[0] != 0 and test_data[1] != 0\<close>, with the \<open>IndexError\<close> of an index
  beyond the data; \<open>and\<close> does not look at the second byte when the first is zero.
\<close>

definition signature_ok :: "byte list \<Rightarrow> error + bool" where
  "signature_ok data =
     (case data of
        [] \<Rightarrow> Inl IndexError
      | b0 # rest \<Rightarrow>
          if b0 = 0 then Inr False
          else (case rest of
                  [] \<Rightarrow> Inl IndexError
                | b1 # _ \<Rightarrow> Inr (b1 \<noteq> 0)))"

text \<open>The second pass: the loop over the regions, in the order of the table.\<close>

fun scan_regions :: "region list \<Rightarrow> ProcessMemory \<Rightarrow> (int option) outcome" where
  "scan_regions [] s = (Inr None, emit (Print NoSuitableRegion) s)"
| "scan_regions (r # rs) s =
     (if MIN_SIZE \<le> region_size r then
        (case int_truediv \<bar>region_size r - TARGET_SIZE\<bar> TARGET_SIZE of
           Inl e \<Rightarrow> (Inl e, s)
         | Inr size_diff \<Rightarrow>
             if fle size_diff SIZE_TOLERANCE then
               (case read_memory (start_addr r) 4
                       (emit (Print (FoundPotentialRegion (start_addr r) (region_size r))) s) of
                  (Inl e, s1) \<Rightarrow> scan_regions rs (emit (Print (ErrorReadingMemory e)) s1)
                | (Inr test_data, s1) \<Rightarrow>
                    if any_nonzero test_data then
                      (let s2 = emit (Print (FoundNonZeroContent (start_addr r) test_data)) s1
                       in case signature_ok test_data of
                            Inl e \<Rightarrow> scan_regions rs (emit (Print (ErrorReadingMemory e)) s2)
                          | Inr True \<Rightarrow>
                              (Inr (Some (start_addr r)),
                               (emit (Print FoundSignature) s2)
                                 \<lparr>game_memory_base := Some (start_addr r)\<rparr>)
                          | Inr False \<Rightarrow> scan_regions rs s2)
                    else scan_regions rs s1)
             else scan_regions rs s)
      else scan_regions rs s)"

definition find_game_memory :: "ProcessMemory \<Rightarrow> (int option) outcome" where
  "find_game_memory s =
     (case maps_file s of
        None \<Rightarrow> (Inr None, s)
      | Some lines \<Rightarrow>
          (case parse_maps lines of
             Inl e \<Rightarrow> (Inl e, emit (Print ScanningRegions) s)
           | Inr regions \<Rightarrow> scan_regions regions (emit (Print ScanningRegions) s)))"

section \<open>Typed access to game memory\<close>

definition read_uint32 :: "int \<Rightarrow> ProcessMemory \<Rightarrow> int outcome" where
  "read_uint32 address s =
     (if \<not> established s then (Inr 0, emit (Print BaseNotEstablished) s)
      else read_int (base s + address) 4 s)"

definition read_uint16 :: "int \<Rightarrow> ProcessMemory \<Rightarrow> int outcome" where
  "read_uint16 address s =
     (if \<not> established s then (Inr 0, emit (Print BaseNotEstablished) s)
      else (case read_memory (base s + address) 2 s of
              (Inl e, s') \<Rightarrow> (Inl e, s')
            | (Inr data, s') \<Rightarrow> (Inr (from_bytes data), s')))"

definition read_float :: "int \<Rightarrow> ProcessMemory \<Rightarrow> pyfloat outcome" where
  "read_float address s =
     (if \<not> established s then (Inr (Finite False 0), emit (Print BaseNotEstablished) s)
      else (case read_memory (base s + address) 4 s of
              (Inl e, s') \<Rightarrow> (Inl e, s')
            | (Inr data, s') \<Rightarrow> (unpack_f data, s')))"

definition write_uint16 :: "int \<Rightarrow> int \<Rightarrow> ProcessMemory \<Rightarrow> unit outcome" where
  "write_uint16 address v s =
     (if \<not> established s then (Inr (), emit (Print BaseNotEstablished) s)
      else (case to_bytes v 2 of
              Inl e \<Rightarrow> (Inl e, s)
            | Inr data \<Rightarrow> write_memory (base s + address) data s))"

definition write_float :: "int \<Rightarrow> pyfloat \<Rightarrow> ProcessMemory \<Rightarrow> unit outcome" where
  "write_float address v s =
     (if \<not> established s then (Inr (), emit (Print BaseNotEstablished) s)
      else write_memory (base s + address) (pack_f v) s)"

definition read_pointer :: "int \<Rightarrow> ProcessMemory \<Rightarrow> int outcome" where
  "read_pointer address s =
     (if \<not> established s then (Inr 0, emit (Print BaseNotEstablished) s)
      else (case read_uint32 address s of
              (Inl e, s') \<Rightarrow> (Inl e, s')
            | (Inr val, s') \<Rightarrow> (Inr (if val \<noteq> 0 then val - 0x8000000 else 0), s')))"

section \<open>The injection engine\<close>

text \<open>
  The two loops that bring the yaw back into range.  They need not return: the value of
  a run that goes on for ever is \<open>None\<close>.
\<close>

partial_function (option) wrap_down :: "pyfloat \<Rightarrow> pyfloat option" where
  "wrap_down cam_x =
     (if fgt cam_x (fdiv TAU (Finite False 2)) then wrap_down (fsub cam_x TAU)
      else Some cam_x)"

partial_function (option) wrap_up :: "pyfloat \<Rightarrow> pyfloat option" where
  "wrap_up cam_x =
     (if flt cam_x (fdiv (fneg TAU) (Finite False 2)) then wrap_up (fadd cam_x TAU)
      else Some cam_x)"

definition wrap_yaw :: "pyfloat \<Rightarrow> pyfloat option" where
  "wrap_yaw cam_x = (case wrap_down cam_x of None \<Rightarrow> None | Some x \<Rightarrow> wrap_up x)"

definition PITCH_LIMIT :: pyfloat where
  "PITCH_LIMIT = literal (1483529806 / 1000000000)"

definition clamp_pitch :: "pyfloat \<Rightarrow> pyfloat" where
  "clamp_pitch cam_y = py_max (py_min cam_y PITCH_LIMIT) (fneg PITCH_LIMIT)"

definition psp_mohh1_inject ::
    "pyfloat \<Rightarrow> pyfloat \<Rightarrow> pyfloat \<Rightarrow> bool \<Rightarrow> ProcessMemory \<Rightarrow> (unit outcome) option" where
  "psp_mohh1_inject xmouse ymouse sensitivity invertpitch s =
     (if \<not> established s then Some (Inr (), emit (Print BaseNotEstablished) s)
      else
        (case read_pointer MOHH1_CAMBASE_PTR s of
           (Inl e, s1) \<Rightarrow> Some (Inl e, s1)
         | (Inr cam_base, s1) \<Rightarrow>
             (if cam_base = 0 then Some (Inr (), s1)
              else
                (case read_float (cam_base + MOHH1_FOV) s1 of
                   (Inl e, s2) \<Rightarrow> Some (Inl e, s2)
                 | (Inr fov, s2) \<Rightarrow>
                     (if feq xmouse (Finite False 0) \<and> feq ymouse (Finite False 0)
                      then Some (Inr (), s2)
                      else
                        (case read_float (cam_base + MOHH1_CAMX) s2 of
                           (Inl e, s3) \<Rightarrow> Some (Inl e, s3)
                         | (Inr cam_x, s3) \<Rightarrow>
                             (case read_float (cam_base + MOHH1_CAMY) s3 of
                                (Inl e, s4) \<Rightarrow> Some (Inl e, s4)
                              | (Inr cam_y, s4) \<Rightarrow>
                                  (let look_sensitivity = fdiv sensitivity (literal 20);
                                       scale = literal 20000;
                                       cam_x1 =
                                         fsub cam_x
                                           (fmul (fdiv (fmul xmouse look_sensitivity) scale) fov);
                                       cam_y1 =
                                         fsub cam_y
                                           (if \<not> invertpitch
                                            then fmul (fdiv (fmul ymouse look_sensitivity) scale)
                                                   fov
                                            else fmul (fdiv (fmul (fneg ymouse) look_sensitivity)
                                                         scale) fov)
                                   in (case wrap_yaw cam_x1 of
                                         None \<Rightarrow> None
                                       | Some cam_x2 \<Rightarrow>
                                           (case write_float (cam_base + MOHH1_CAMX) cam_x2 s4 of
                                              (Inl e, s5) \<Rightarrow> Some (Inl e, s5)
                                            | (Inr u, s5) \<Rightarrow>
                                                Some (write_float (cam_base + MOHH1_CAMY)
                                                        (clamp_pitch cam_y1) s5)))))))))))"

section \<open>Observing the effects\<close>

fun is_write :: "event \<Rightarrow> bool" where
  "is_write (MemWrite a d) = True"
| "is_write (MemRead a n) = False"
| "is_write (Print msg) = False"

fun is_access :: "event \<Rightarrow> bool" where
  "is_access (MemWrite a d) = True"
| "is_access (MemRead a n) = True"
| "is_access (Print msg) = False"

definition writes :: "ProcessMemory \<Rightarrow> event list" where
  "writes s = filter is_write (events s)"

definition accesses :: "ProcessMemory \<Rightarrow> event list" where
  "accesses s = filter is_access (events s)"

text \<open>
  A step from \<open>s\<close> to \<open>s'\<close> that leaves the target's memory, the mapping table and the
  base address alone and writes nothing.
\<close>

definition read_only :: "ProcessMemory \<Rightarrow> ProcessMemory \<Rightarrow> bool" where
  "read_only s s' =
     (mem_file s' = mem_file s \<and> maps_file s' = maps_file s \<and>
      game_memory_base s' = game_memory_base s \<and> writes s' = writes s)"

text \<open>
  The acceptance test of the region scanner in the words of the specification: a size of
  at least 1 MiB and within 10% of 32 MiB, and first bytes (as the read at the start of
  the region delivers them) that are not all zero, the first two both nonzero.
  \<open>examined\<close> lists the candidates whose first bytes are read: those of the right size,
  up to and including the first that qualifies.
\<close>

definition size_ok :: "region \<Rightarrow> bool" where
  "size_ok r =
     (MIN_SIZE \<le> region_size r \<and> 10 * \<bar>region_size r - TARGET_SIZE\<bar> \<le> TARGET_SIZE)"

definition probe_ok :: "memory \<Rightarrow> region \<Rightarrow> bool" where
  "probe_ok m r =
     (case stream_read m (start_addr r) 4 of
        Inl e \<Rightarrow> False
      | Inr data \<Rightarrow>
          any_nonzero data \<and>
          (case data of
             b0 # b1 # rest \<Rightarrow> b0 \<noteq> 0 \<and> b1 \<noteq> 0
           | _ \<Rightarrow> False))"

definition qualifies :: "memory \<Rightarrow> region \<Rightarrow> bool" where
  "qualifies m r = (size_ok r \<and> probe_ok m r)"

fun examined :: "memory \<Rightarrow> region list \<Rightarrow> region list" where
  "examined m [] = []"
| "examined m (r # rs) =
     (if size_ok r then (if probe_ok m r then [r] else r # examined m rs)
      else examined m rs)"

section \<open>A sample process\<close>

text \<open>
  An emulator whose guest RAM is mapped at \<open>0x7F0000000000\<close>: the camera pointer holds
  \<open>0x08100000\<close>, the field of view is 75.0, the yaw 0.0 and the pitch 1.0.  The mapping
  table lists, before the guest RAM, the executable (too small), a region of the right
  size that cannot be read and one that starts with zero bytes, and after it another
  region that would qualify.
\<close>

fun place :: "int \<Rightarrow> byte list \<Rightarrow> memory \<Rightarrow> memory" where
  "place a [] m = m"
| "place a (b # bs) m = place (a + 1) bs (m(a \<mapsto> b))"

definition demo_memory :: memory where
  "demo_memory =
     place 0x7E0000000000 [0x00, 0x00, 0x00, 0x00]
    (place 0x7F0000000000 [0x7F, 0x45, 0x4C, 0x46]
    (place 0x7F0000D8361C [0x00, 0x00, 0x10, 0x08]
    (place 0x7F00001001E8 [0x00, 0x00, 0x96, 0x42]
    (place 0x7F00001001A4 [0x00, 0x00, 0x00, 0x00]
    (place 0x7F0000100188 [0x00, 0x00, 0x80, 0x3F]
    (place 0x7F1000000000 [0x7F, 0x45, 0x4C, 0x46] (\<lambda>a. None)))))))"

definition demo_maps :: "string list" where
  "demo_maps =
     [''00400000-00452000 r-xp 00000000 08:02 173521 /usr/bin/PPSSPPSDL'',
      ''7d0000000000-7d0002000000 rw-s 00000000 00:01 98 /dev/shm/gone'',
      ''7e0000000000-7e0002000000 rw-s 00000000 00:01 99 /dev/shm/zero'',
      ''7f0000000000-7f0002000000 rw-s 00000000 00:01 1234 /dev/shm/ppsspp'',
      ''7f1000000000-7f1002000000 rw-s 00000000 00:01 1235 /dev/shm/later'']"

definition attached :: ProcessMemory where
  "attached = \<lparr>mem_file = Some demo_memory, maps_file = Some demo_maps,
                game_memory_base = None, events = []\<rparr>"

definition demo_state :: ProcessMemory where
  "demo_state = attached\<lparr>game_memory_base := Some 0x7F0000000000\<rparr>"

text \<open>The sample process after the four reads of a tick, and after its two writes.\<close>

definition demo_after_reads :: ProcessMemory where
  "demo_after_reads =
     emit (MemRead 0x7F0000100188 4) (emit (MemRead 0x7F00001001A4 4)
       (emit (MemRead 0x7F00001001E8 4) (emit (MemRead 0x7F0000D8361C 4) demo_state)))"

definition demo_after_inject :: ProcessMemory where
  "demo_after_inject =
     emit (MemWrite 0x7F0000100188 [0x00, 0x00, 0x80, 0x3F])
       ((emit (MemWrite 0x7F00001001A4 [0x00, 0x00, 0x70, 0xBF])
          (demo_after_reads\<lparr>mem_file :=
             Some (overwrite demo_memory 0x7F00001001A4 [0x00, 0x00, 0x70, 0xBF])\<rparr>))
        \<lparr>mem_file :=
           Some (overwrite (overwrite demo_memory 0x7F00001001A4 [0x00, 0x00, 0x70, 0xBF])
                   0x7F0000100188 [0x00, 0x00, 0x80, 0x3F])\<rparr>)"


section \<open>Frame lemmas\<close>

lemma emit_fields [simp]:
  "mem_file (emit ev s) = mem_file s"
  "maps_file (emit ev s) = maps_file s"
  "game_memory_base (emit ev s) = game_memory_base s"
  "events (emit ev s) = events s @ [ev]"
  by (simp_all add: emit_def)

lemma emit_established [simp]: "established (emit ev s) = established s"
  by (simp add: established_def)

lemma emit_base [simp]: "base (emit ev s) = base s"
  by (simp add: base_def)

lemma upd_fields [simp]:
  "established (s\<lparr>mem_file := mf\<rparr>) = established s"
  "base (s\<lparr>mem_file := mf\<rparr>) = base s"
  "established (s\<lparr>events := es\<rparr>) = established s"
  "base (s\<lparr>events := es\<rparr>) = base s"
  by (simp_all add: established_def base_def)

lemma accesses_emit_print [simp]: "accesses (emit (Print msg) s) = accesses s"
  by (simp add: accesses_def)

lemma accesses_emit_read [simp]: "accesses (emit (MemRead a n) s) = accesses s @ [MemRead a n]"
  by (simp add: accesses_def)

lemma accesses_base_upd [simp]: "accesses (s\<lparr>game_memory_base := b\<rparr>) = accesses s"
  by (simp add: accesses_def)

lemma read_only_refl [simp]: "read_only s s"
  by (simp add: read_only_def)


lemma read_only_emit [simp]: "\<not> is_write ev \<Longrightarrow> read_only s (emit ev s)"
  by (simp add: read_only_def writes_def)

lemma read_only_established: "read_only s s' \<Longrightarrow> established s' = established s"
  by (simp add: read_only_def established_def)

lemma read_only_base: "read_only s s' \<Longrightarrow> game_memory_base s' = game_memory_base s"
  by (simp add: read_only_def)

lemma read_memory_read_only: "read_memory a n s = (r, s') \<Longrightarrow> read_only s s'"
  by (auto simp: read_memory_def split: option.splits)

lemma read_int_read_only: "read_int a n s = (r, s') \<Longrightarrow> read_only s s'"
  by (auto simp: read_int_def split: prod.splits sum.splits dest: read_memory_read_only)

lemma read_uint32_read_only: "read_uint32 a s = (r, s') \<Longrightarrow> read_only s s'"
  by (auto simp: read_uint32_def split: if_splits dest: read_int_read_only)

lemma read_uint16_read_only: "read_uint16 a s = (r, s') \<Longrightarrow> read_only s s'"
  by (auto simp: read_uint16_def split: if_splits prod.splits sum.splits
           dest: read_memory_read_only)

lemma read_float_read_only: "read_float a s = (r, s') \<Longrightarrow> read_only s s'"
  by (auto simp: read_float_def split: if_splits prod.splits sum.splits
           dest: read_memory_read_only)

lemma read_pointer_read_only: "read_pointer a s = (r, s') \<Longrightarrow> read_only s s'"
  by (auto simp: read_pointer_def split: if_splits prod.splits sum.splits
           dest: read_uint32_read_only)

lemma write_memory_base: "write_memory a d s = (r, s') \<Longrightarrow> game_memory_base s' = game_memory_base s"
  by (auto simp: write_memory_def split: option.splits sum.splits)

lemma write_uint16_base: "write_uint16 a v s = (r, s') \<Longrightarrow> game_memory_base s' = game_memory_base s"
  by (auto simp: write_uint16_def split: if_splits sum.splits dest: write_memory_base)

lemma write_float_base: "write_float a v s = (r, s') \<Longrightarrow> game_memory_base s' = game_memory_base s"
  by (auto simp: write_float_def split: if_splits dest: write_memory_base)

lemma inject_base:
  assumes "psp_mohh1_inject x y sens ip s = Some (r, s')"
  shows "game_memory_base s' = game_memory_base s"
  using assms unfolding psp_mohh1_inject_def Let_def
  by (auto split: if_splits prod.splits sum.splits option.splits
        dest!: read_pointer_read_only read_float_read_only write_float_base read_only_base)



section \<open>Rounding to the nearest double\<close>

lemma pow2_powr: "pow2 k = (2::real) powr (of_int k)"
proof (cases "0 \<le> k")
  case True
  then show ?thesis by (simp add: pow2_def powr_realpow [symmetric])
next
  case False
  then have "(2::real) powr (of_int k) = 1 / 2 powr (of_int (- k))"
    by (simp add: powr_minus divide_inverse)
  also have "\<dots> = 1 / 2 ^ nat (- k)"
    using False by (simp add: powr_realpow [symmetric])
  finally show ?thesis using False by (simp add: pow2_def)
qed

lemma pow2_pos [simp]: "0 < pow2 k"
  by (simp add: pow2_powr)

lemma pow2_nonneg [simp]: "0 \<le> pow2 k"
  using pow2_pos [of k] by linarith

lemma pow2_neq_0 [simp]: "pow2 k \<noteq> 0"
  using pow2_pos [of k] by linarith

lemma pow2_add: "pow2 (a + b) = pow2 a * pow2 b"
  by (simp add: pow2_powr powr_add)

lemma pow2_mono: "a \<le> b \<Longrightarrow> pow2 a \<le> pow2 b"
  by (simp add: pow2_powr)

lemma pow2_nat: "pow2 (int n) = 2 ^ n"
  by (simp add: pow2_def)

lemma pow2_numeral: "pow2 (numeral n) = 2 ^ numeral n"
  by (simp add: pow2_def)

lemma pow2_le_1024: "k \<le> 1024 \<Longrightarrow> x < pow2 k \<Longrightarrow> x < pow2 1024"
  using pow2_mono [of k 1024] by simp

lemma pow2_shift: "pow2 (int p - 54) = 2 ^ p / 2 ^ 54"
proof -
  have "pow2 (int p + (- 54)) = pow2 (int p) * pow2 (- 54)" by (rule pow2_add)
  then show ?thesis by (simp add: pow2_nat pow2_def)
qed

lemma eight_le: "3 \<le> p \<Longrightarrow> (8::real) \<le> 2 ^ p"
  using power_increasing [of 3 p "2::real"] by simp

lemma le_2_53: "p \<le> 53 \<Longrightarrow> (2::real) ^ p \<le> 2 ^ 53"
  by (rule power_increasing) simp_all

lemma ilog2_bounds:
  assumes "0 < m"
  shows "pow2 (ilog2 m) \<le> m" and "m < pow2 (ilog2 m + 1)"
proof -
  have "pow2 (ilog2 m) \<le> m \<and> m < pow2 (ilog2 m + 1)"
  proof (cases "1 \<le> m")
    case True
    define k where "k = \<lfloor>m\<rfloor>"
    have k: "0 < k" "of_int k \<le> m" "m < of_int k + 1"
      using True by (auto simp: k_def)
    from bitlen_bounds [OF k(1)]
    have b: "2 ^ nat (bitlen k - 1) \<le> k" "k < 2 ^ nat (bitlen k)" by auto
    have b1: "1 \<le> bitlen k" using k(1) by (simp add: bitlen_alt_def)
    have "pow2 (bitlen k - 1) = of_int (2 ^ nat (bitlen k - 1))"
      using b1 by (simp add: pow2_def)
    also have "\<dots> \<le> of_int k" using b(1) by (simp only: of_int_le_iff)
    finally have lo: "pow2 (bitlen k - 1) \<le> m" using k(2) by simp
    have "k + 1 \<le> 2 ^ nat (bitlen k)" using b(2) by simp
    then have "(of_int (k + 1) :: real) \<le> of_int (2 ^ nat (bitlen k))"
      by (simp only: of_int_le_iff)
    then have "m < 2 ^ nat (bitlen k)" using k(3) by simp
    then have hi: "m < pow2 (bitlen k)" using b1 by (simp add: pow2_def)
    show ?thesis using True lo hi by (simp add: ilog2_def k_def)
  next
    case False
    define c where "c = \<lceil>1 / m\<rceil>"
    define j where "j = c - 1"
    have im: "1 < 1 / m" using False assms by simp
    have c: "1 / m \<le> of_int c" "of_int c < 1 / m + 1"
      unfolding c_def by linarith+
    have j: "0 < j" using c(1) im by (simp add: j_def)
    from bitlen_bounds [OF j]
    have b: "2 ^ nat (bitlen j - 1) \<le> j" "j < 2 ^ nat (bitlen j)" by auto
    have b1: "1 \<le> bitlen j" using j by (simp add: bitlen_alt_def)
    have "j + 1 \<le> 2 ^ nat (bitlen j)" using b(2) by simp
    then have "(of_int (j + 1) :: real) \<le> of_int (2 ^ nat (bitlen j))"
      by (simp only: of_int_le_iff)
    then have "(of_int c :: real) \<le> 2 ^ nat (bitlen j)" by (simp add: j_def)
    then have "1 / m \<le> 2 ^ nat (bitlen j)" using c(1) by linarith
    then have "1 / 2 ^ nat (bitlen j) \<le> m"
      using assms by (simp add: field_simps)
    then have lo: "pow2 (- bitlen j) \<le> m" using b1 by (simp add: pow2_def)
    have "(of_int (2 ^ nat (bitlen j - 1)) :: real) \<le> of_int j"
      using b(1) by (simp only: of_int_le_iff)
    then have "2 ^ nat (bitlen j - 1) \<le> (of_int c :: real) - 1" by (simp add: j_def)
    then have "2 ^ nat (bitlen j - 1) < 1 / m" using c(2) by linarith
    then have "m < 1 / 2 ^ nat (bitlen j - 1)"
      using assms by (simp add: field_simps)
    moreover have "pow2 (- bitlen j + 1) = 1 / 2 ^ nat (bitlen j - 1)"
      using b1 by (auto simp: pow2_def)
    ultimately have hi: "m < pow2 (- bitlen j + 1)" by simp
    show ?thesis using False lo hi by (simp add: ilog2_def c_def j_def)
  qed
  then show "pow2 (ilog2 m) \<le> m" and "m < pow2 (ilog2 m + 1)" by auto
qed

lemma ilog2_less: "0 < m \<Longrightarrow> m < pow2 k \<Longrightarrow> ilog2 m < k"
proof (rule ccontr)
  assume m: "0 < m" "m < pow2 k" and "\<not> ilog2 m < k"
  then have "pow2 k \<le> pow2 (ilog2 m)" by (simp add: pow2_mono)
  with ilog2_bounds(1) [OF m(1)] m(2) show False by simp
qed

lemma ilog2_ge: "0 < m \<Longrightarrow> pow2 k \<le> m \<Longrightarrow> k \<le> ilog2 m"
proof (rule ccontr)
  assume m: "0 < m" "pow2 k \<le> m" and "\<not> k \<le> ilog2 m"
  then have "pow2 (ilog2 m + 1) \<le> pow2 k" by (simp add: pow2_mono)
  with ilog2_bounds(2) [OF m(1)] m(2) show False by simp
qed

lemma round_half_even_error: "\<bar>of_int (round_half_even x) - x\<bar> \<le> 1 / 2"
  unfolding round_half_even_def Let_def by (auto simp: abs_le_iff)

lemma round_half_even_nonneg: "0 \<le> x \<Longrightarrow> 0 \<le> round_half_even x"
  unfolding round_half_even_def Let_def by auto

lemma round_half_even_le: "x \<le> of_int k \<Longrightarrow> round_half_even x \<le> k"
proof -
  assume h: "x \<le> of_int k"
  show ?thesis
  proof (cases "x = of_int k")
    case True
    then show ?thesis by (simp add: round_half_even_def)
  next
    case False
    with h have "x < of_int k" by simp
    then have "\<lfloor>x\<rfloor> < k" by (simp add: floor_less_iff)
    then show ?thesis by (simp add: round_half_even_def Let_def)
  qed
qed

lemma round_mag_nonneg: "0 \<le> m \<Longrightarrow> 0 \<le> round_mag p emin m"
  by (simp add: round_mag_def Let_def round_half_even_nonneg)

lemma round_mag_error:
  assumes "0 < m"
  shows "\<bar>round_mag p emin m - m\<bar> \<le> pow2 (max (ilog2 m) emin - int p + 1) / 2"
proof -
  define q where "q = max (ilog2 m) emin - int p + 1"
  define z where "z = m / pow2 q"
  have m: "m = z * pow2 q" by (simp add: z_def)
  have r: "round_mag p emin m = of_int (round_half_even z) * pow2 q"
    using assms by (simp add: round_mag_def q_def z_def Let_def)
  have "round_mag p emin m - m = (of_int (round_half_even z) - z) * pow2 q"
    unfolding r by (simp add: z_def left_diff_distrib)
  then have "\<bar>round_mag p emin m - m\<bar> = \<bar>of_int (round_half_even z) - z\<bar> * pow2 q"
    by (simp add: abs_mult)
  also have "\<dots> \<le> (1 / 2) * pow2 q"
    by (rule mult_right_mono [OF round_half_even_error]) simp
  finally show ?thesis by (simp add: q_def)
qed

text \<open>Below \<open>pow2 k\<close> the spacing of binary64 is at most \<open>pow2 (k - 53)\<close>.\<close>

lemma double_error_below:
  assumes "0 < m" and "m < pow2 k" and "- 1022 < k"
  shows "\<bar>round_mag 53 (- 1022) m - m\<bar> \<le> pow2 (k - 54)"
proof -
  have "ilog2 m < k" using assms by (simp add: ilog2_less)
  then have "max (ilog2 m) (- 1022) - int 53 + 1 \<le> k - 53" using assms(3) by simp
  then have "pow2 (max (ilog2 m) (- 1022) - int 53 + 1) \<le> pow2 (k - 53)"
    by (rule pow2_mono)
  moreover have "pow2 (k - 53) = 2 * pow2 (k - 54)"
    using pow2_add [of 1 "k - 54"] by (simp add: pow2_def)
  ultimately show ?thesis using round_mag_error [OF assms(1), of 53 "- 1022"] by simp
qed

text \<open>In the normal range the error is at most \<open>m / 2 ^ 53\<close>.\<close>

lemma double_error_relative:
  assumes "pow2 (- 1022) \<le> m"
  shows "\<bar>round_mag 53 (- 1022) m - m\<bar> \<le> m / 2 ^ 53"
proof -
  have pos: "0 < m" using assms pow2_pos [of "- 1022"] by linarith
  have e: "- 1022 \<le> ilog2 m" using pos assms by (rule ilog2_ge)
  then have q: "max (ilog2 m) (- 1022) - int 53 + 1 = ilog2 m + (- 52)" by simp
  have "pow2 (ilog2 m + (- 52)) = pow2 (ilog2 m) * pow2 (- 52)" by (rule pow2_add)
  also have "\<dots> \<le> m * pow2 (- 52)"
    by (rule mult_right_mono [OF ilog2_bounds(1) [OF pos]]) simp
  finally have "pow2 (ilog2 m + (- 52)) / 2 \<le> m * pow2 (- 52) / 2" by simp
  also have "\<dots> = m / 2 ^ 53" by (simp add: pow2_def)
  finally show ?thesis using round_mag_error [OF pos, of 53 "- 1022"] unfolding q by simp
qed

lemma double_finite:
  "round_mag 53 (- 1022) m < pow2 1024 \<Longrightarrow> double s m = Finite s (round_mag 53 (- 1022) m)"
  by (simp add: double_def make_float_def Let_def)

lemma valof_double:
  assumes "0 \<le> m" and "round_mag 53 (- 1022) m < pow2 1024"
  shows "is_finite (double s m)"
    and "valof (double s m) = (if s then - round_mag 53 (- 1022) m else round_mag 53 (- 1022) m)"
  using assms by (simp_all add: double_finite)

text \<open>Evaluation of the rounding on numerals.\<close>

lemmas float_eval =
  literal_def double_def single_def make_float_def round_mag_def ilog2_def pow2_def
  round_half_even_def Let_def compute_bitlen

lemma TAU_value: "TAU = Finite False (7074237743944945 / 1125899906842624)"
  by (simp add: TAU_def float_eval)

lemma half_TAU: "fdiv TAU (Finite False 2) = Finite False (7074237743944945 / 2251799813685248)"
  by (simp add: TAU_value float_eval)

lemma neg_half_TAU:
  "fdiv (fneg TAU) (Finite False 2) = Finite True (7074237743944945 / 2251799813685248)"
  by (simp add: TAU_value float_eval)

lemma PITCH_LIMIT_value: "PITCH_LIMIT = Finite False (208788258796707 / 140737488355328)"
  by (simp add: PITCH_LIMIT_def float_eval)

lemma SIZE_TOLERANCE_value:
  "SIZE_TOLERANCE = Finite False (3602879701896397 / 36028797018963968)"
  by (simp add: SIZE_TOLERANCE_def float_eval)

lemma flt_finite: "is_finite a \<Longrightarrow> is_finite b \<Longrightarrow> flt a b = (valof a < valof b)"
  by (cases a; cases b) simp_all

lemma fneg_finite [simp]: "is_finite (fneg a) = is_finite a"
  by (cases a) simp_all

lemma valof_fneg [simp]: "valof (fneg a) = - valof a"
  by (cases a) simp_all

lemma fneg_fneg [simp]: "fneg (fneg a) = a"
  by (cases a) simp_all

lemma fneg_double: "fneg (double s m) = double (\<not> s) m"
  by (simp add: double_def make_float_def Let_def)

lemma fmul_fneg_left: "fmul (fneg a) b = fneg (fmul a b)"
  by (cases a; cases b) (auto simp: fneg_double)

lemma fdiv_fneg_left: "fdiv (fneg a) b = fneg (fdiv a b)"
  by (cases a; cases b) (auto simp: fneg_double)

lemma fsub_fneg: "fsub a (fneg b) = fadd a b"
  by (simp add: fsub_def)

lemma fadd_finite_error:
  assumes fin: "is_finite a" "is_finite b"
    and bound: "\<bar>valof a + valof b\<bar> < pow2 k" and k: "- 1022 < k" "k \<le> 1023"
  shows "is_finite (fadd a b) \<and> \<bar>valof (fadd a b) - (valof a + valof b)\<bar> \<le> pow2 (k - 54)"
proof -
  obtain s m t n where ab: "a = Finite s m" "b = Finite t n"
    using fin by (cases a; cases b) auto
  define v where "v = valof a + valof b"
  show ?thesis
  proof (cases "v = 0")
    case True
    then have "fadd a b = Finite (s \<and> t) 0" by (simp add: ab v_def Let_def)
    then show ?thesis using True by (simp add: v_def)
  next
    case False
    define r where "r = round_mag 53 (- 1022) \<bar>v\<bar>"
    have pos: "0 < \<bar>v\<bar>" using False by simp
    have err: "\<bar>r - \<bar>v\<bar>\<bar> \<le> pow2 (k - 54)"
      unfolding r_def using pos bound k(1) unfolding v_def by (rule double_error_below)
    have "pow2 (k - 54) \<le> pow2 k" by (rule pow2_mono) simp
    then have "r < pow2 k + pow2 k" using err bound by (simp add: v_def abs_le_iff)
    also have "\<dots> = pow2 (k + 1)" using pow2_add [of k 1] by (simp add: pow2_def)
    also have "\<dots> \<le> pow2 1024" by (rule pow2_mono) (use k in simp)
    finally have small: "r < pow2 1024" .
    have v': "v = valof (Finite s m) + valof (Finite t n)" by (simp add: v_def ab)
    have "fadd a b = double (v < 0) \<bar>v\<bar>"
      using False unfolding ab v' by (simp add: Let_def del: valof.simps)
    then have eq: "fadd a b = Finite (v < 0) r"
      using small by (simp add: r_def double_finite)
    have "\<bar>valof (Finite (v < 0) r) - v\<bar> = \<bar>r - \<bar>v\<bar>\<bar>"
      by (cases "v < 0") (simp_all add: abs_if)
    then show ?thesis using err unfolding eq v_def by simp
  qed
qed

lemma fadd_nonpos:
  assumes "is_finite a" and "is_finite b" and "valof a + valof b \<le> 0"
  shows "valof (fadd a b) \<le> 0"
proof -
  obtain s m t n where ab: "a = Finite s m" "b = Finite t n"
    using assms(1,2) by (cases a; cases b) auto
  define v where "v = valof (Finite s m) + valof (Finite t n)"
  have v: "v \<le> 0" using assms(3) by (simp add: v_def ab)
  have eq: "fadd a b = (if v = 0 then Finite (s \<and> t) 0 else double (v < 0) \<bar>v\<bar>)"
    unfolding ab v_def by (simp add: Let_def del: valof.simps)
  show ?thesis
  proof (cases "v = 0")
    case True
    then show ?thesis by (simp add: eq)
  next
    case False
    with v have neg: "v < 0" by simp
    have "0 \<le> round_mag 53 (- 1022) \<bar>v\<bar>" by (rule round_mag_nonneg) simp
    then show ?thesis
      using False neg by (simp add: eq double_def make_float_def Let_def)
  qed
qed

lemma fadd_pos_value:
  assumes "is_finite a" and "is_finite b" and "0 < valof a + valof b"
    and "round_mag 53 (- 1022) (valof a + valof b) < pow2 1024"
  shows "fadd a b = Finite False (round_mag 53 (- 1022) (valof a + valof b))"
proof -
  obtain s m t n where ab: "a = Finite s m" "b = Finite t n"
    using assms(1,2) by (cases a; cases b) auto
  define v where "v = valof (Finite s m) + valof (Finite t n)"
  have v: "0 < v" "round_mag 53 (- 1022) v < pow2 1024" using assms(3,4) by (simp_all add: v_def ab)
  have eq: "fadd a b = (if v = 0 then Finite (s \<and> t) 0 else double (v < 0) \<bar>v\<bar>)"
    unfolding ab v_def by (simp add: Let_def del: valof.simps)
  have "fadd a b = Finite False (round_mag 53 (- 1022) v)"
    using v by (simp add: eq double_finite)
  then show ?thesis by (simp add: v_def ab)
qed

section \<open>The yaw loops\<close>

lemma wrap_yaw_in_range:
  assumes "\<not> fgt x (fdiv TAU (Finite False 2))" and "\<not> flt x (fdiv (fneg TAU) (Finite False 2))"
  shows "wrap_yaw x = Some x"
proof -
  have "wrap_down x = Some x" using assms(1) by (subst wrap_down.simps) simp
  moreover have "wrap_up x = Some x" using assms(2) by (subst wrap_up.simps) simp
  ultimately show ?thesis by (simp add: wrap_yaw_def)
qed

lemma wrap_down_unfold:
  "fgt x (fdiv TAU (Finite False 2)) \<Longrightarrow> wrap_down x = wrap_down (fsub x TAU)"
  by (subst wrap_down.simps) simp

lemma wrap_down_step:
  assumes "is_finite x" and "valof x \<le> 2 ^ 53" and "fgt x (fdiv TAU (Finite False 2))"
  shows "is_finite (fsub x TAU) \<and> valof (fsub x TAU) \<le> valof x - 5 \<and> - 5 \<le> valof (fsub x TAU)"
proof -
  have gt: "7074237743944945 / 2251799813685248 < valof x"
    using assms(1,3) by (simp add: fgt_def half_TAU flt_finite)
  have t: "is_finite (fneg TAU)" "valof (fneg TAU) = - (7074237743944945 / 1125899906842624)"
    by (simp_all add: TAU_value)
  have "\<bar>valof x + valof (fneg TAU)\<bar> < pow2 54"
    using gt assms(2) unfolding t by (simp add: pow2_def abs_less_iff)
  from fadd_finite_error [OF assms(1) t(1) this]
  have "is_finite (fadd x (fneg TAU))"
    and "\<bar>valof (fadd x (fneg TAU)) - (valof x + valof (fneg TAU))\<bar> \<le> pow2 0"
    by simp_all
  then show ?thesis using gt unfolding fsub_def t by (simp add: pow2_def abs_le_iff)
qed

lemma round_le_half_TAU:
  assumes "2 \<le> v" and "v \<le> 7074237743944945 / 2251799813685248"
  shows "round_mag 53 (- 1022) v \<le> 7074237743944945 / 2251799813685248"
proof -
  have pos: "0 < v" using assms(1) by simp
  have "pow2 1 \<le> v" using assms(1) by (simp add: pow2_def)
  then have e1: "1 \<le> ilog2 v" using pos by (simp add: ilog2_ge)
  have "v < pow2 2" using assms(2) by (simp add: pow2_def)
  then have e2: "ilog2 v < 2" using pos by (simp add: ilog2_less)
  from e1 e2 have e: "ilog2 v = 1" by simp
  have q: "pow2 (- 51) = 1 / 2251799813685248" by (simp add: pow2_def)
  have "v / pow2 (- 51) \<le> of_int 7074237743944945" using assms(2) by (simp add: q)
  then have "round_half_even (v / pow2 (- 51)) \<le> 7074237743944945"
    by (rule round_half_even_le)
  then have "(of_int (round_half_even (v / pow2 (- 51))) :: real) \<le> 7074237743944945"
    by (metis of_int_le_iff of_int_numeral)
  then have "of_int (round_half_even (v / pow2 (- 51))) * pow2 (- 51)
      \<le> 7074237743944945 * pow2 (- 51)"
    by (rule mult_right_mono) simp
  then show ?thesis using pos by (simp add: round_mag_def e Let_def q)
qed

lemma wrap_up_step:
  assumes "is_finite x" and "- (2 ^ 53) \<le> valof x"
    and "flt x (fdiv (fneg TAU) (Finite False 2))"
  shows "is_finite (fadd x TAU) \<and> valof x + 5 \<le> valof (fadd x TAU) \<and>
         valof (fadd x TAU) \<le> 7074237743944945 / 2251799813685248"
proof -
  have lt: "valof x < - (7074237743944945 / 2251799813685248)"
    using assms(1,3) by (simp add: neg_half_TAU flt_finite)
  have t: "is_finite TAU" "valof TAU = 7074237743944945 / 1125899906842624"
    by (simp_all add: TAU_value)
  define v where "v = valof x + valof TAU"
  have vb: "v < 7074237743944945 / 2251799813685248" "- (2 ^ 53) < v"
    using lt assms(2) by (simp_all add: v_def t)
  have "\<bar>valof x + valof TAU\<bar> < pow2 54"
    using vb by (simp add: v_def pow2_def abs_less_iff)
  from fadd_finite_error [OF assms(1) t(1) this]
  have fin: "is_finite (fadd x TAU)"
    and err: "\<bar>valof (fadd x TAU) - v\<bar> \<le> 1"
    by (simp_all add: v_def pow2_def)
  have lower: "valof x + 5 \<le> valof (fadd x TAU)"
    using err by (simp add: v_def t abs_le_iff)
  have upper: "valof (fadd x TAU) \<le> 7074237743944945 / 2251799813685248"
  proof (cases "v \<le> 0")
    case True
    then have "valof (fadd x TAU) \<le> 0"
      using fadd_nonpos [OF assms(1) t(1)] by (simp add: v_def)
    then show ?thesis by simp
  next
    case False
    then have pos: "0 < v" by simp
    show ?thesis
    proof (cases "v < 2")
      case True
      then have "\<bar>valof x + valof TAU\<bar> < pow2 1" using pos by (simp add: v_def pow2_def)
      from fadd_finite_error [OF assms(1) t(1) this]
      have "\<bar>valof (fadd x TAU) - v\<bar> \<le> pow2 (- 53)" by (simp add: v_def)
      moreover have "pow2 (- 53) \<le> 1" by (simp add: pow2_def)
      ultimately show ?thesis using True by (simp add: abs_le_iff)
    next
      case False
      then have two: "2 \<le> v" by simp
      from round_le_half_TAU [OF two] vb(1)
      have r: "round_mag 53 (- 1022) v \<le> 7074237743944945 / 2251799813685248" by simp
      also have "\<dots> < pow2 2" by (simp add: pow2_def)
      also have "\<dots> \<le> pow2 1024" by (rule pow2_mono) simp
      finally have "round_mag 53 (- 1022) v < pow2 1024" .
      from fadd_pos_value [OF assms(1) t(1) pos [unfolded v_def] this [unfolded v_def]]
      show ?thesis using r by (simp add: v_def)
    qed
  qed
  show ?thesis using fin lower upper by simp
qed

lemma wrap_down_step_error:
  assumes "is_finite x" and "fgt x (fdiv TAU (Finite False 2))"
    and "3 \<le> p" and "p \<le> 53" and "\<bar>valof x\<bar> < 2 ^ p"
  shows "\<bar>valof (fsub x TAU)\<bar> < 2 ^ p \<and>
         \<bar>valof (fsub x TAU) - (valof x - valof TAU)\<bar> \<le> 2 ^ p / 2 ^ 54"
proof -
  have gt: "7074237743944945 / 2251799813685248 < valof x"
    using assms(1,2) by (simp add: fgt_def half_TAU flt_finite)
  have e: "(8::real) \<le> 2 ^ p" using assms(3) by (rule eight_le)
  have "(2::real) ^ p \<le> 2 ^ 53" using assms(4) by (rule le_2_53)
  then have x53: "valof x \<le> 2 ^ 53" using assms(5) by linarith
  from wrap_down_step [OF assms(1) x53 assms(2)]
  have st: "valof (fsub x TAU) \<le> valof x - 5" "- 5 \<le> valof (fsub x TAU)" by simp_all
  have t: "is_finite (fneg TAU)" "valof (fneg TAU) = - (7074237743944945 / 1125899906842624)"
    "valof TAU = 7074237743944945 / 1125899906842624"
    by (simp_all add: TAU_value)
  have "\<bar>valof x + valof (fneg TAU)\<bar> < pow2 (int p)"
    unfolding pow2_nat t using gt assms(5) e by (simp add: abs_less_iff; linarith)
  from fadd_finite_error [OF assms(1) t(1) this] assms(4)
  have "\<bar>valof (fadd x (fneg TAU)) - (valof x + valof (fneg TAU))\<bar> \<le> pow2 (int p - 54)"
    by simp
  then have err: "\<bar>valof (fsub x TAU) - (valof x - valof TAU)\<bar> \<le> 2 ^ p / 2 ^ 54"
    by (simp add: fsub_def pow2_shift)
  have "\<bar>valof (fsub x TAU)\<bar> < 2 ^ p"
    using st assms(5) e by (simp add: abs_less_iff; linarith)
  then show ?thesis using err by simp
qed

lemma wrap_up_step_error:
  assumes "is_finite x" and "flt x (fdiv (fneg TAU) (Finite False 2))"
    and "3 \<le> p" and "p \<le> 53" and "\<bar>valof x\<bar> < 2 ^ p"
  shows "\<bar>valof (fadd x TAU)\<bar> < 2 ^ p \<and>
         \<bar>valof (fadd x TAU) - (valof x + valof TAU)\<bar> \<le> 2 ^ p / 2 ^ 54"
proof -
  have lt: "valof x < - (7074237743944945 / 2251799813685248)"
    using assms(1,2) by (simp add: neg_half_TAU flt_finite)
  have e: "(8::real) \<le> 2 ^ p" using assms(3) by (rule eight_le)
  have "(2::real) ^ p \<le> 2 ^ 53" using assms(4) by (rule le_2_53)
  then have x53: "- (2 ^ 53) \<le> valof x" using assms(5) by linarith
  from wrap_up_step [OF assms(1) x53 assms(2)]
  have st: "valof x + 5 \<le> valof (fadd x TAU)"
    "valof (fadd x TAU) \<le> 7074237743944945 / 2251799813685248" by simp_all
  have t: "is_finite TAU" "valof TAU = 7074237743944945 / 1125899906842624"
    by (simp_all add: TAU_value)
  have "\<bar>valof x + valof TAU\<bar> < pow2 (int p)"
    unfolding pow2_nat t using lt assms(5) e by (simp add: abs_less_iff; linarith)
  from fadd_finite_error [OF assms(1) t(1) this] assms(4)
  have "\<bar>valof (fadd x TAU) - (valof x + valof TAU)\<bar> \<le> pow2 (int p - 54)"
    by simp
  then have err: "\<bar>valof (fadd x TAU) - (valof x + valof TAU)\<bar> \<le> 2 ^ p / 2 ^ 54"
    by (simp add: pow2_shift)
  have "\<bar>valof (fadd x TAU)\<bar> < 2 ^ p"
    using st assms(5) e by (simp add: abs_less_iff; linarith)
  then show ?thesis using err by simp
qed

lemma error_chain:
  fixes x x' y a b e t :: real
  assumes "\<bar>y - (x' + a)\<bar> \<le> b" and "\<bar>x' - (x + t)\<bar> \<le> e"
  shows "\<bar>y - (x + (a + t))\<bar> \<le> b + e"
  using assms by linarith

lemma wrap_down_run:
  assumes "is_finite x" and "valof x \<le> 2 ^ 53" and "- (2 ^ 53) \<le> valof x"
  shows "\<exists>y n. wrap_down x = Some y \<and> y = ((\<lambda>v. fsub v TAU) ^^ n) x \<and> is_finite y \<and>
           valof y \<le> 7074237743944945 / 2251799813685248 \<and> - (2 ^ 53) \<le> valof y \<and>
           (\<forall>p. 3 \<le> p \<and> p \<le> 53 \<and> \<bar>valof x\<bar> < 2 ^ p \<longrightarrow>
              \<bar>valof y\<bar> < 2 ^ p \<and>
              \<bar>valof y - (valof x + - (real n * valof TAU))\<bar> \<le> real n * (2 ^ p / 2 ^ 54))"
  using assms
proof (induction "nat \<lceil>valof x\<rceil>" arbitrary: x rule: less_induct)
  case less
  show ?case
  proof (cases "fgt x (fdiv TAU (Finite False 2))")
    case True
    let ?x' = "fsub x TAU"
    have gt: "7074237743944945 / 2251799813685248 < valof x"
      using less.prems(1) True by (simp add: fgt_def half_TAU flt_finite)
    from wrap_down_step [OF less.prems(1,2) True]
    have st: "is_finite ?x'" "valof ?x' \<le> valof x - 5" "- 5 \<le> valof ?x'" by simp_all
    have "\<lceil>valof ?x'\<rceil> \<le> \<lceil>valof x - 5\<rceil>" using st(2) by (rule ceiling_mono)
    moreover have "0 < \<lceil>valof x\<rceil>" using gt by (simp add: less_ceiling_iff)
    ultimately have dec: "nat \<lceil>valof ?x'\<rceil> < nat \<lceil>valof x\<rceil>" by simp
    have "valof ?x' \<le> 2 ^ 53" "- (2 ^ 53) \<le> valof ?x'"
      using st(2,3) less.prems(2) by simp_all
    from less.hyps [OF dec st(1) this]
    obtain y n where y: "wrap_down ?x' = Some y" "y = ((\<lambda>v. fsub v TAU) ^^ n) ?x'"
      "is_finite y" "valof y \<le> 7074237743944945 / 2251799813685248" "- (2 ^ 53) \<le> valof y"
      and E: "\<forall>p. 3 \<le> p \<and> p \<le> 53 \<and> \<bar>valof ?x'\<bar> < 2 ^ p \<longrightarrow>
              \<bar>valof y\<bar> < 2 ^ p \<and>
              \<bar>valof y - (valof ?x' + - (real n * valof TAU))\<bar> \<le> real n * (2 ^ p / 2 ^ 54)"
      by blast
    have w: "wrap_down x = Some y" using True y(1) by (subst wrap_down.simps) simp
    have "((\<lambda>v. fsub v TAU) ^^ Suc n) x = ((\<lambda>v. fsub v TAU) ^^ n) ?x'"
      by (simp only: funpow_Suc_right comp_apply)
    then have it: "y = ((\<lambda>v. fsub v TAU) ^^ Suc n) x" using y(2) by (simp only:)
    have E': "\<bar>valof y\<bar> < 2 ^ p \<and>
              \<bar>valof y - (valof x + - (real (Suc n) * valof TAU))\<bar>
                \<le> real (Suc n) * (2 ^ p / 2 ^ 54)"
      if p: "3 \<le> p" "p \<le> 53" "\<bar>valof x\<bar> < 2 ^ p" for p
    proof -
      from wrap_down_step_error [OF less.prems(1) True p]
      have s: "\<bar>valof ?x'\<bar> < 2 ^ p" "\<bar>valof ?x' - (valof x + - valof TAU)\<bar> \<le> 2 ^ p / 2 ^ 54"
        by simp_all
      from E p(1,2) s(1)
      have i: "\<bar>valof y\<bar> < 2 ^ p"
        "\<bar>valof y - (valof ?x' + - (real n * valof TAU))\<bar> \<le> real n * (2 ^ p / 2 ^ 54)"
        by blast+
      from error_chain [OF i(2) s(2)]
      have "\<bar>valof y - (valof x + (- (real n * valof TAU) + - valof TAU))\<bar>
          \<le> real n * (2 ^ p / 2 ^ 54) + 2 ^ p / 2 ^ 54" .
      moreover have "- (real n * valof TAU) + - valof TAU = - (real (Suc n) * valof TAU)"
        by (simp add: algebra_simps)
      moreover have "real n * (2 ^ p / 2 ^ 54) + 2 ^ p / 2 ^ 54 = real (Suc n) * (2 ^ p / 2 ^ 54)"
        by (simp add: algebra_simps)
      ultimately show ?thesis using i(1) by (simp only:)
    qed
    show ?thesis
      using w it y(3,4,5) E' by blast
  next
    case False
    then have "wrap_down x = Some x" by (subst wrap_down.simps) simp
    moreover have "x = ((\<lambda>v. fsub v TAU) ^^ 0) x" by simp
    moreover have "valof x \<le> 7074237743944945 / 2251799813685248"
      using less.prems(1) False by (simp add: fgt_def half_TAU flt_finite)
    moreover have "\<forall>p. 3 \<le> p \<and> p \<le> 53 \<and> \<bar>valof x\<bar> < 2 ^ p \<longrightarrow>
              \<bar>valof x\<bar> < 2 ^ p \<and>
              \<bar>valof x - (valof x + - (real 0 * valof TAU))\<bar> \<le> real 0 * (2 ^ p / 2 ^ 54)"
      by simp
    ultimately show ?thesis using less.prems by blast
  qed
qed

lemma wrap_up_run:
  assumes "is_finite x" and "- (2 ^ 53) \<le> valof x"
    and "valof x \<le> 7074237743944945 / 2251799813685248"
  shows "\<exists>y k. wrap_up x = Some y \<and> y = ((\<lambda>v. fadd v TAU) ^^ k) x \<and> is_finite y \<and>
           - (7074237743944945 / 2251799813685248) \<le> valof y \<and>
           valof y \<le> 7074237743944945 / 2251799813685248 \<and>
           (\<forall>p. 3 \<le> p \<and> p \<le> 53 \<and> \<bar>valof x\<bar> < 2 ^ p \<longrightarrow>
              \<bar>valof y - (valof x + real k * valof TAU)\<bar> \<le> real k * (2 ^ p / 2 ^ 54))"
  using assms
proof (induction "nat \<lceil>- valof x\<rceil>" arbitrary: x rule: less_induct)
  case less
  show ?case
  proof (cases "flt x (fdiv (fneg TAU) (Finite False 2))")
    case True
    let ?x' = "fadd x TAU"
    have lt: "valof x < - (7074237743944945 / 2251799813685248)"
      using less.prems(1) True by (simp add: neg_half_TAU flt_finite)
    from wrap_up_step [OF less.prems(1,2) True]
    have st: "is_finite ?x'" "valof x + 5 \<le> valof ?x'"
      "valof ?x' \<le> 7074237743944945 / 2251799813685248" by simp_all
    have "- valof ?x' \<le> - valof x - 5" using st(2) by simp
    then have "\<lceil>- valof ?x'\<rceil> \<le> \<lceil>- valof x - 5\<rceil>" by (rule ceiling_mono)
    moreover have "0 < \<lceil>- valof x\<rceil>" using lt by (simp add: less_ceiling_iff)
    ultimately have dec: "nat \<lceil>- valof ?x'\<rceil> < nat \<lceil>- valof x\<rceil>" by simp
    have "- (2 ^ 53) \<le> valof ?x'" using st(2) less.prems(2) by simp
    from less.hyps [OF dec st(1) this st(3)]
    obtain y k where y: "wrap_up ?x' = Some y" "y = ((\<lambda>v. fadd v TAU) ^^ k) ?x'"
      "is_finite y" "- (7074237743944945 / 2251799813685248) \<le> valof y"
      "valof y \<le> 7074237743944945 / 2251799813685248"
      and E: "\<forall>p. 3 \<le> p \<and> p \<le> 53 \<and> \<bar>valof ?x'\<bar> < 2 ^ p \<longrightarrow>
              \<bar>valof y - (valof ?x' + real k * valof TAU)\<bar> \<le> real k * (2 ^ p / 2 ^ 54)"
      by blast
    have w: "wrap_up x = Some y" using True y(1) by (subst wrap_up.simps) simp
    have "((\<lambda>v. fadd v TAU) ^^ Suc k) x = ((\<lambda>v. fadd v TAU) ^^ k) ?x'"
      by (simp only: funpow_Suc_right comp_apply)
    then have it: "y = ((\<lambda>v. fadd v TAU) ^^ Suc k) x" using y(2) by (simp only:)
    have E': "\<bar>valof y - (valof x + real (Suc k) * valof TAU)\<bar>
                \<le> real (Suc k) * (2 ^ p / 2 ^ 54)"
      if p: "3 \<le> p" "p \<le> 53" "\<bar>valof x\<bar> < 2 ^ p" for p
    proof -
      from wrap_up_step_error [OF less.prems(1) True p]
      have s: "\<bar>valof ?x'\<bar> < 2 ^ p" "\<bar>valof ?x' - (valof x + valof TAU)\<bar> \<le> 2 ^ p / 2 ^ 54"
        by simp_all
      from E p(1,2) s(1)
      have i: "\<bar>valof y - (valof ?x' + real k * valof TAU)\<bar> \<le> real k * (2 ^ p / 2 ^ 54)"
        by blast
      from error_chain [OF i s(2)]
      have "\<bar>valof y - (valof x + (real k * valof TAU + valof TAU))\<bar>
          \<le> real k * (2 ^ p / 2 ^ 54) + 2 ^ p / 2 ^ 54" .
      moreover have "real k * valof TAU + valof TAU = real (Suc k) * valof TAU"
        by (simp add: algebra_simps)
      moreover have "real k * (2 ^ p / 2 ^ 54) + 2 ^ p / 2 ^ 54 = real (Suc k) * (2 ^ p / 2 ^ 54)"
        by (simp add: algebra_simps)
      ultimately show ?thesis by (simp only:)
    qed
    show ?thesis
      using w it y(3,4,5) E' by blast
  next
    case False
    then have "wrap_up x = Some x" by (subst wrap_up.simps) simp
    moreover have "x = ((\<lambda>v. fadd v TAU) ^^ 0) x" by simp
    moreover have "- (7074237743944945 / 2251799813685248) \<le> valof x"
      using less.prems(1) False by (simp add: neg_half_TAU flt_finite)
    moreover have "\<forall>p. 3 \<le> p \<and> p \<le> 53 \<and> \<bar>valof x\<bar> < 2 ^ p \<longrightarrow>
              \<bar>valof x - (valof x + real 0 * valof TAU)\<bar> \<le> real 0 * (2 ^ p / 2 ^ 54)"
      by simp
    ultimately show ?thesis using less.prems by blast
  qed
qed

lemma wrap_yaw_run:
  assumes "is_finite x" and "\<bar>valof x\<bar> \<le> 2 ^ 53"
  shows "\<exists>y n k. wrap_yaw x = Some y \<and>
           y = ((\<lambda>v. fadd v TAU) ^^ k) (((\<lambda>v. fsub v TAU) ^^ n) x) \<and> is_finite y \<and>
           - (7074237743944945 / 2251799813685248) \<le> valof y \<and>
           valof y \<le> 7074237743944945 / 2251799813685248 \<and>
           (\<forall>p. 3 \<le> p \<and> p \<le> 53 \<and> \<bar>valof x\<bar> < 2 ^ p \<longrightarrow>
              \<bar>valof y - (valof x + (real k * valof TAU + - (real n * valof TAU)))\<bar>
                \<le> real k * (2 ^ p / 2 ^ 54) + real n * (2 ^ p / 2 ^ 54))"
proof -
  have b: "valof x \<le> 2 ^ 53" "- (2 ^ 53) \<le> valof x" using assms(2) by (simp_all add: abs_le_iff)
  from wrap_down_run [OF assms(1) b]
  obtain z n where z: "wrap_down x = Some z" "z = ((\<lambda>v. fsub v TAU) ^^ n) x" "is_finite z"
    "valof z \<le> 7074237743944945 / 2251799813685248" "- (2 ^ 53) \<le> valof z"
    and Ez: "\<forall>p. 3 \<le> p \<and> p \<le> 53 \<and> \<bar>valof x\<bar> < 2 ^ p \<longrightarrow>
              \<bar>valof z\<bar> < 2 ^ p \<and>
              \<bar>valof z - (valof x + - (real n * valof TAU))\<bar> \<le> real n * (2 ^ p / 2 ^ 54)"
    by blast
  from wrap_up_run [OF z(3) z(5) z(4)]
  obtain y k where y: "wrap_up z = Some y" "y = ((\<lambda>v. fadd v TAU) ^^ k) z" "is_finite y"
    "- (7074237743944945 / 2251799813685248) \<le> valof y"
    "valof y \<le> 7074237743944945 / 2251799813685248"
    and Ey: "\<forall>p. 3 \<le> p \<and> p \<le> 53 \<and> \<bar>valof z\<bar> < 2 ^ p \<longrightarrow>
              \<bar>valof y - (valof z + real k * valof TAU)\<bar> \<le> real k * (2 ^ p / 2 ^ 54)"
    by blast
  have w: "wrap_yaw x = Some y" using z(1) y(1) by (simp add: wrap_yaw_def)
  have it: "y = ((\<lambda>v. fadd v TAU) ^^ k) (((\<lambda>v. fsub v TAU) ^^ n) x)"
    using y(2) z(2) by simp
  have E: "\<bar>valof y - (valof x + (real k * valof TAU + - (real n * valof TAU)))\<bar>
                \<le> real k * (2 ^ p / 2 ^ 54) + real n * (2 ^ p / 2 ^ 54)"
    if p: "3 \<le> p" "p \<le> 53" "\<bar>valof x\<bar> < 2 ^ p" for p
  proof -
    from Ez p have a: "\<bar>valof z\<bar> < 2 ^ p"
      "\<bar>valof z - (valof x + - (real n * valof TAU))\<bar> \<le> real n * (2 ^ p / 2 ^ 54)"
      by blast+
    from Ey p(1,2) a(1)
    have "\<bar>valof y - (valof z + real k * valof TAU)\<bar> \<le> real k * (2 ^ p / 2 ^ 54)" by blast
    from error_chain [OF this a(2)] show ?thesis .
  qed
  show ?thesis using w it y(3,4,5) E by blast
qed

lemma wrap_down_loops:
  assumes "fgt c (fdiv TAU (Finite False 2))" and "fsub c TAU = c"
  shows "wrap_down c = None"
proof (rule ccontr)
  assume "wrap_down c \<noteq> None"
  then obtain y where h: "wrap_down c = Some y" by auto
  have "c \<noteq> c"
  proof (rule wrap_down.raw_induct [where P = "\<lambda>x y. x \<noteq> c", OF _ h])
    fix f x' y'
    assume IH: "\<And>x y. f x = Some y \<Longrightarrow> x \<noteq> c"
      and st: "(if fgt x' (fdiv TAU (Finite False 2)) then f (fsub x' TAU) else Some x') = Some y'"
    show "x' \<noteq> c"
    proof
      assume "x' = c"
      with st assms have "f c = Some y'" by simp
      from IH [OF this] show False by simp
    qed
  qed
  then show False by simp
qed

lemma wrap_up_loops:
  assumes "flt c (fdiv (fneg TAU) (Finite False 2))" and "fadd c TAU = c"
  shows "wrap_up c = None"
proof (rule ccontr)
  assume "wrap_up c \<noteq> None"
  then obtain y where h: "wrap_up c = Some y" by auto
  have "c \<noteq> c"
  proof (rule wrap_up.raw_induct [where P = "\<lambda>x y. x \<noteq> c", OF _ h])
    fix f x' y'
    assume IH: "\<And>x y. f x = Some y \<Longrightarrow> x \<noteq> c"
      and st: "(if flt x' (fdiv (fneg TAU) (Finite False 2)) then f (fadd x' TAU) else Some x') = Some y'"
    show "x' \<noteq> c"
    proof
      assume "x' = c"
      with st assms have "f c = Some y'" by simp
      from IH [OF this] show False by simp
    qed
  qed
  then show False by simp
qed

lemma wrap_yaw_infinite: "wrap_yaw (Infinity False) = None" "wrap_yaw (Infinity True) = None"
proof -
  have "wrap_down (Infinity False) = None"
    by (rule wrap_down_loops) (simp add: half_TAU fgt_def, simp add: fsub_def TAU_value)
  then show "wrap_yaw (Infinity False) = None" by (simp add: wrap_yaw_def)
  have "wrap_down (Infinity True) = Some (Infinity True)"
    by (subst wrap_down.simps) (simp add: half_TAU fgt_def)
  moreover have "wrap_up (Infinity True) = None"
    by (rule wrap_up_loops) (simp add: neg_half_TAU, simp add: TAU_value)
  ultimately show "wrap_yaw (Infinity True) = None" by (simp add: wrap_yaw_def)
qed

lemma wrap_yaw_huge:
  "wrap_yaw (literal (10 ^ 17)) = None" "wrap_yaw (literal (2 ^ 60)) = None"
proof -
  have "wrap_down (literal (10 ^ 17)) = None"
    by (rule wrap_down_loops)
       (simp add: half_TAU fgt_def float_eval, simp add: fsub_def TAU_value float_eval)
  then show "wrap_yaw (literal (10 ^ 17)) = None" by (simp add: wrap_yaw_def)
  have "wrap_down (literal (2 ^ 60)) = None"
    by (rule wrap_down_loops)
       (simp add: half_TAU fgt_def float_eval, simp add: fsub_def TAU_value float_eval)
  then show "wrap_yaw (literal (2 ^ 60)) = None" by (simp add: wrap_yaw_def)
qed

lemma wrap_yaw_20:
  "wrap_yaw (literal 20) = Some (Finite False (647642452508823 / 562949953421312))"
proof -
  have l: "literal 20 = Finite False 20" by (simp add: float_eval)
  have s1: "fsub (Finite False 20) TAU = Finite False (965235024556721 / 70368744177664)"
    by (simp add: fsub_def TAU_value float_eval)
  have s2: "fsub (Finite False (965235024556721 / 70368744177664)) TAU =
      Finite False (8369522648962591 / 1125899906842624)"
    by (simp add: fsub_def TAU_value float_eval)
  have s3: "fsub (Finite False (8369522648962591 / 1125899906842624)) TAU =
      Finite False (647642452508823 / 562949953421312)"
    by (simp add: fsub_def TAU_value float_eval)
  have "wrap_down (Finite False 20) =
      wrap_down (Finite False (965235024556721 / 70368744177664))"
    by (subst wrap_down_unfold) (simp_all add: half_TAU fgt_def s1)
  also have "\<dots> = wrap_down (Finite False (8369522648962591 / 1125899906842624))"
    by (subst wrap_down_unfold) (simp_all add: half_TAU fgt_def s2)
  also have "\<dots> = wrap_down (Finite False (647642452508823 / 562949953421312))"
    by (subst wrap_down_unfold) (simp_all add: half_TAU fgt_def s3)
  also have "\<dots> = Some (Finite False (647642452508823 / 562949953421312))"
    by (subst wrap_down.simps) (simp add: half_TAU fgt_def)
  finally have d: "wrap_down (literal 20) =
      Some (Finite False (647642452508823 / 562949953421312))" by (simp add: l)
  have "wrap_up (Finite False (647642452508823 / 562949953421312)) =
      Some (Finite False (647642452508823 / 562949953421312))"
    by (subst wrap_up.simps) (simp add: neg_half_TAU)
  with d show ?thesis by (simp add: wrap_yaw_def)
qed

lemma wrap_yaw_NaN: "wrap_yaw NaN = Some NaN"
  by (rule wrap_yaw_in_range) (simp_all add: half_TAU neg_half_TAU fgt_def)

section \<open>A lower bound of pi\<close>

text \<open>The full turn of the program, 6.2831853, is less than \<open>2 * pi\<close>.\<close>

lemma sum_16:
  "(\<Sum>m<16. g m) =
     (g 0 + g 1 + g 2 + g 3 + g 4 + g 5 + g 6 + g 7 + g 8 + g 9 + g 10 + g 11 + g 12 + g 13
        + g 14 + g (15::nat) :: real)"
  by (simp add: numeral_eq_Suc)

lemma cos_poly:
  "(\<Sum>m<16. cos_coeff m * (x::real) ^ m) =
     1 - x ^ 2 / 2 + x ^ 4 / 24 - x ^ 6 / 720 + x ^ 8 / 40320 - x ^ 10 / 3628800
       + x ^ 12 / 479001600 - x ^ 14 / 87178291200"
  unfolding sum_16 by (simp add: cos_coeff_def fact_numeral)

lemma cos_lower:
  assumes "0 < (x::real)"
  shows "1 - x ^ 2 / 2 + x ^ 4 / 24 - x ^ 6 / 720 + x ^ 8 / 40320 - x ^ 10 / 3628800
       + x ^ 12 / 479001600 - x ^ 14 / 87178291200 - x ^ 16 / 20922789888000 \<le> cos x"
proof -
  from Maclaurin_cos_expansion2 [OF assms, of 16]
  obtain t where t: "cos x = (\<Sum>m<16. cos_coeff m * x ^ m)
      + (cos (t + 1 / 2 * real 16 * pi) / fact 16) * x ^ 16"
    by auto
  define c where "c = cos (t + 1 / 2 * real 16 * pi)"
  have c: "- 1 \<le> c" by (simp add: c_def)
  have f: "(fact 16 :: real) = 20922789888000" by (simp add: fact_numeral)
  have nn: "0 \<le> x ^ 16 / 20922789888000" using assms by simp
  have "- 1 * (x ^ 16 / 20922789888000) \<le> c * (x ^ 16 / 20922789888000)"
    by (rule mult_right_mono [OF c nn])
  moreover have "cos x = 1 - x ^ 2 / 2 + x ^ 4 / 24 - x ^ 6 / 720 + x ^ 8 / 40320
       - x ^ 10 / 3628800 + x ^ 12 / 479001600 - x ^ 14 / 87178291200
       + c * (x ^ 16 / 20922789888000)"
    unfolding t cos_poly c_def [symmetric] f by simp
  ultimately show ?thesis by linarith
qed

lemma pi_lower: "3141592652 / 1000000000 < pi"
proof -
  define x :: real where "x = 1570796326 / 1000000000"
  have xpos: "0 < x" by (simp add: x_def)
  have "0 < 1 - x ^ 2 / 2 + x ^ 4 / 24 - x ^ 6 / 720 + x ^ 8 / 40320 - x ^ 10 / 3628800
       + x ^ 12 / 479001600 - x ^ 14 / 87178291200 - x ^ 16 / 20922789888000"
    unfolding x_def by (simp add: power_divide)
  with cos_lower [OF xpos] have pos: "0 < cos x" by linarith
  have "x < pi / 2"
  proof (rule ccontr)
    assume "\<not> x < pi / 2"
    then have "pi / 2 \<le> x" by simp
    moreover have "x \<le> pi" using pi_ge_two by (simp add: x_def)
    ultimately have "cos x \<le> cos (pi / 2)" by (intro cos_monotone_0_pi_le) simp_all
    with pos show False by simp
  qed
  then show ?thesis by (simp add: x_def)
qed

lemma half_TAU_less_pi: "valof TAU / 2 < pi"
  using pi_lower by (simp add: TAU_value)

section \<open>Region discovery\<close>

lemma scan_regions_base:
  "scan_regions rs s = (r, s') \<Longrightarrow>
     mem_file s' = mem_file s \<and>
     (case r of
        Inl e \<Rightarrow> game_memory_base s' = game_memory_base s
      | Inr None \<Rightarrow> game_memory_base s' = game_memory_base s
      | Inr (Some a) \<Rightarrow> game_memory_base s' = Some a)"
proof (induction rs arbitrary: s)
  case Nil
  then show ?case by auto
next
  case (Cons x rs)
  show ?case
  proof (cases "MIN_SIZE \<le> region_size x")
    case False
    with Cons.prems have "scan_regions rs s = (r, s')" by simp
    from Cons.IH [OF this] show ?thesis .
  next
    case big: True
    show ?thesis
    proof (cases "int_truediv \<bar>region_size x - TARGET_SIZE\<bar> TARGET_SIZE")
      case (Inl e)
      with big Cons.prems show ?thesis by auto
    next
      case (Inr d)
      show ?thesis
      proof (cases "fle d SIZE_TOLERANCE")
        case False
        with big Inr Cons.prems have "scan_regions rs s = (r, s')" by simp
        from Cons.IH [OF this] show ?thesis .
      next
        case True
        obtain p s1 where rd: "read_memory (start_addr x) 4
            (emit (Print (FoundPotentialRegion (start_addr x) (region_size x))) s) = (p, s1)"
          by (cases "read_memory (start_addr x) 4
            (emit (Print (FoundPotentialRegion (start_addr x) (region_size x))) s)")
        from read_memory_read_only [OF rd]
        have s1: "mem_file s1 = mem_file s" "game_memory_base s1 = game_memory_base s"
          by (simp_all add: read_only_def)
        from Cons.prems big Inr True rd
        consider
            (next1) e where "scan_regions rs (emit (Print (ErrorReadingMemory e)) s1) = (r, s')"
          | (next2) "scan_regions rs s1 = (r, s')"
          | (next3) d' where
              "scan_regions rs (emit (Print (FoundNonZeroContent (start_addr x) d')) s1) = (r, s')"
          | (next4) e d' where
              "scan_regions rs (emit (Print (ErrorReadingMemory e))
                 (emit (Print (FoundNonZeroContent (start_addr x) d')) s1)) = (r, s')"
          | (found) d' where "r = Inr (Some (start_addr x))"
              "s' = (emit (Print FoundSignature)
                      (emit (Print (FoundNonZeroContent (start_addr x) d')) s1))
                      \<lparr>game_memory_base := Some (start_addr x)\<rparr>"
          by (auto simp: Let_def split: sum.splits if_splits bool.splits)
        then show ?thesis
        proof cases
          case next1 from Cons.IH [OF this] show ?thesis using s1 by (auto split: sum.splits option.splits)
        next
          case next2 from Cons.IH [OF this] show ?thesis using s1 by (auto split: sum.splits option.splits)
        next
          case next3 from Cons.IH [OF this] show ?thesis using s1 by (auto split: sum.splits option.splits)
        next
          case next4 from Cons.IH [OF this] show ?thesis using s1 by (auto split: sum.splits option.splits)
        next
          case found then show ?thesis using s1 by (auto split: sum.splits option.splits)
        qed
      qed
    qed
  qed
qed

lemma find_game_memory_base:
  assumes "find_game_memory s = (r, s')"
  shows "case r of
           Inl e \<Rightarrow> game_memory_base s' = game_memory_base s
         | Inr None \<Rightarrow> game_memory_base s' = game_memory_base s
         | Inr (Some a) \<Rightarrow> game_memory_base s' = Some a"
proof (cases "maps_file s")
  case None
  with assms show ?thesis by (auto simp: find_game_memory_def)
next
  case (Some lines)
  show ?thesis
  proof (cases "parse_maps lines")
    case (Inl e)
    with Some assms show ?thesis by (auto simp: find_game_memory_def)
  next
    case (Inr regions)
    with Some assms have "scan_regions regions (emit (Print ScanningRegions) s) = (r, s')"
      by (simp add: find_game_memory_def)
    from scan_regions_base [OF this] show ?thesis by (auto split: sum.splits option.splits)
  qed
qed

lemma size_test:
  assumes "0 \<le> d" and "d < 2 ^ 64"
  shows "\<exists>f. int_truediv d TARGET_SIZE = Inr f \<and>
             (fle f SIZE_TOLERANCE \<longleftrightarrow> 10 * d \<le> TARGET_SIZE)"
proof (cases "d = 0")
  case True
  have "double False 0 = Finite False 0" by (simp add: float_eval)
  then show ?thesis
    using True
    by (simp add: int_truediv_def TARGET_SIZE_def SIZE_TOLERANCE_value fle_def)
next
  case False
  define m :: real where "m = of_int d / 2 ^ 25"
  define r where "r = round_mag 53 (- 1022) m"
  have dpos: "1 \<le> d" using assms(1) False by simp
  then have d1: "(1::real) \<le> of_int d" by simp
  have d2: "(of_int d :: real) < 2 ^ 64" using assms(2) by (metis of_int_less_iff of_int_numeral of_int_power)
  have lo: "1 / 2 ^ 25 \<le> m" using d1 by (simp add: m_def field_simps)
  have hi: "m < 2 ^ 39" using d2 by (simp add: m_def field_simps)
  have "pow2 (- 1022) \<le> pow2 (- 25)" by (rule pow2_mono) simp
  also have "\<dots> = 1 / 2 ^ 25" by (simp add: pow2_def)
  finally have normal: "pow2 (- 1022) \<le> m" using lo by simp
  define e where "e = m / 2 ^ 53"
  have err: "\<bar>r - m\<bar> \<le> e"
    unfolding r_def e_def using normal by (rule double_error_relative)
  have le: "r \<le> m + e" "m - e \<le> r" using err by linarith+
  have mpos: "0 < m" using d1 by (simp add: m_def)
  have "e \<le> m" using mpos by (simp add: e_def field_simps)
  then have "r \<le> 2 * m" using le(1) by linarith
  also have "\<dots> < 2 ^ 40" using hi by simp
  also have "\<dots> = pow2 40" by (simp add: pow2_def)
  also have "\<dots> \<le> pow2 1024" by (rule pow2_mono) simp
  finally have small: "r < pow2 1024" .
  have dbl: "double False m = Finite False r" using small by (simp add: r_def double_finite)
  have q: "\<bar>real_of_int d\<bar> / \<bar>real_of_int TARGET_SIZE\<bar> = m"
    using assms(1) by (simp add: TARGET_SIZE_def m_def)
  have sg: "((d < 0) \<noteq> (TARGET_SIZE < 0)) = False" "TARGET_SIZE \<noteq> 0"
    using assms(1) by (simp_all add: TARGET_SIZE_def)
  have eq: "int_truediv d TARGET_SIZE = Inr (Finite False r)"
    unfolding int_truediv_def q sg(1) dbl using sg(2) by simp
  have "r \<le> 3602879701896397 / 36028797018963968 \<longleftrightarrow> 10 * d \<le> 2 ^ 25"
  proof
    assume a: "10 * d \<le> 2 ^ 25"
    then have "d \<le> 3355443" by simp
    then have "(of_int d :: real) \<le> 3355443" by (metis of_int_le_iff of_int_numeral)
    then have m1: "m \<le> 3355443 / 2 ^ 25" by (simp add: m_def field_simps)
    then have "e \<le> 1 / 2 ^ 53" by (simp add: e_def field_simps)
    with m1 le(1) have "r \<le> 3355443 / 2 ^ 25 + 1 / 2 ^ 53" by linarith
    also have "\<dots> \<le> 3602879701896397 / 36028797018963968" by simp
    finally show "r \<le> 3602879701896397 / 36028797018963968" .
  next
    assume b: "r \<le> 3602879701896397 / 36028797018963968"
    show "10 * d \<le> 2 ^ 25"
    proof (rule ccontr)
      assume "\<not> 10 * d \<le> 2 ^ 25"
      then have "3355444 \<le> d" by simp
      then have "(3355444 :: real) \<le> of_int d" by (metis of_int_le_iff of_int_numeral)
      then have m2: "3355444 / 2 ^ 25 \<le> m" by (simp add: m_def field_simps)
      have "m - e = m * (1 - 1 / 2 ^ 53)" by (simp add: e_def algebra_simps)
      moreover have "3355444 / 2 ^ 25 * (1 - 1 / 2 ^ 53) \<le> m * (1 - 1 / 2 ^ 53)"
        by (rule mult_right_mono [OF m2]) simp
      moreover have "(3602879701896397 / 36028797018963968 :: real)
          < 3355444 / 2 ^ 25 * (1 - 1 / 2 ^ 53)" by simp
      ultimately show False using b le(2) by linarith
    qed
  qed
  then show ?thesis
    unfolding eq by (auto simp: SIZE_TOLERANCE_value fle_def TARGET_SIZE_def)
qed

lemma size_gate:
  assumes "MIN_SIZE \<le> region_size r" and "region_size r < 2 ^ 64"
  shows "\<exists>f. int_truediv \<bar>region_size r - TARGET_SIZE\<bar> TARGET_SIZE = Inr f \<and>
             (fle f SIZE_TOLERANCE \<longleftrightarrow> size_ok r)"
proof -
  have "0 \<le> \<bar>region_size r - TARGET_SIZE\<bar>" by simp
  moreover have "\<bar>region_size r - TARGET_SIZE\<bar> < 2 ^ 64"
    using assms by (simp add: MIN_SIZE_def TARGET_SIZE_def abs_less_iff)
  ultimately show ?thesis
    using size_test [of "\<bar>region_size r - TARGET_SIZE\<bar>"] assms(1)
    by (simp add: size_ok_def)
qed

lemma signature_ok_True:
  "signature_ok data = Inr True \<longleftrightarrow>
     (case data of b0 # b1 # rest \<Rightarrow> b0 \<noteq> 0 \<and> b1 \<noteq> 0 | _ \<Rightarrow> False)"
  by (auto simp: signature_ok_def split: list.splits)

lemma scan_regions_first:
  assumes "mem_file s = Some m" and "\<forall>r \<in> set rs. region_size r < 2 ^ 64"
  shows "fst (scan_regions rs s) = Inr (map_option start_addr (find (qualifies m) rs)) \<and>
         game_memory_base (snd (scan_regions rs s)) =
           (case find (qualifies m) rs of
              None \<Rightarrow> game_memory_base s
            | Some r \<Rightarrow> Some (start_addr r)) \<and>
         accesses (snd (scan_regions rs s)) =
           accesses s @ map (\<lambda>r. MemRead (start_addr r) 4) (examined m rs)"
  using assms
proof (induction rs arbitrary: s)
  case Nil
  then show ?case by simp
next
  case (Cons x rs)
  have rest: "\<forall>r \<in> set rs. region_size r < 2 ^ 64" using Cons.prems(2) by simp
  note IH = Cons.IH [OF _ rest]
  show ?case
  proof (cases "MIN_SIZE \<le> region_size x")
    case False
    then have "\<not> size_ok x" by (simp add: size_ok_def)
    then show ?thesis using False IH [OF Cons.prems(1)] by (simp add: qualifies_def cong: option.case_cong)
  next
    case big: True
    from size_gate [OF big] Cons.prems(2)
    obtain f where f: "int_truediv \<bar>region_size x - TARGET_SIZE\<bar> TARGET_SIZE = Inr f"
      "fle f SIZE_TOLERANCE \<longleftrightarrow> size_ok x" by auto
    show ?thesis
    proof (cases "size_ok x")
      case False
      then show ?thesis using big f IH [OF Cons.prems(1)] by (simp add: qualifies_def cong: option.case_cong)
    next
      case ok: True
      let ?s0 = "emit (Print (FoundPotentialRegion (start_addr x) (region_size x))) s"
      let ?s1 = "emit (MemRead (start_addr x) 4) ?s0"
      have rd: "read_memory (start_addr x) 4 ?s0 = (stream_read m (start_addr x) 4, ?s1)"
        using Cons.prems(1) by (simp add: read_memory_def)
      have m1: "\<And>ev. mem_file (emit ev ?s1) = Some m" "mem_file ?s1 = Some m"
        "\<And>ev ev'. mem_file (emit ev (emit ev' ?s1)) = Some m"
        using Cons.prems(1) by simp_all
      show ?thesis
      proof (cases "stream_read m (start_addr x) 4")
        case (Inl e)
        then have "\<not> probe_ok m x" by (simp add: probe_ok_def)
        then show ?thesis
          using big f ok rd Inl IH [OF m1(1), of "Print (ErrorReadingMemory e)"]
          by (simp add: qualifies_def cong: option.case_cong)
      next
        case (Inr data)
        show ?thesis
        proof (cases "any_nonzero data")
          case False
          then have "\<not> probe_ok m x" by (simp add: probe_ok_def Inr)
          then show ?thesis
            using big f ok rd Inr False IH [OF m1(2)] by (simp add: qualifies_def cong: option.case_cong)
        next
          case nz: True
          let ?s2 = "emit (Print (FoundNonZeroContent (start_addr x) data)) ?s1"
          show ?thesis
          proof (cases "signature_ok data")
            case (Inl e)
            then have "signature_ok data \<noteq> Inr True" by simp
            then have "\<not> probe_ok m x" by (simp add: probe_ok_def Inr signature_ok_True)
            then show ?thesis
              using big f ok rd Inr nz Inl
                IH [OF m1(3), of "Print (ErrorReadingMemory e)"
                  "Print (FoundNonZeroContent (start_addr x) data)"]
              by (simp add: qualifies_def Let_def cong: option.case_cong)
          next
            case sig: (Inr b)
            show ?thesis
            proof (cases b)
              case True
              then have "probe_ok m x"
                using sig nz by (simp add: probe_ok_def Inr signature_ok_True [symmetric])
              then show ?thesis
                using big f ok rd Inr nz sig True by (simp add: qualifies_def Let_def cong: option.case_cong)
            next
              case False
              then have "signature_ok data \<noteq> Inr True" using sig by simp
              then have "\<not> probe_ok m x" by (simp add: probe_ok_def Inr signature_ok_True)
              then show ?thesis
                using big f ok rd Inr nz sig False
                  IH [OF m1(1), of "Print (FoundNonZeroContent (start_addr x) data)"]
                by (simp add: qualifies_def Let_def cong: option.case_cong)
            qed
          qed
        qed
      qed
    qed
  qed
qed

section \<open>Evaluating the sample process\<close>

lemma readable_run_4:
  "readable_run m a 4 =
     (case m a of None \<Rightarrow> [] | Some b0 \<Rightarrow> b0 #
       (case m (a + 1) of None \<Rightarrow> [] | Some b1 \<Rightarrow> b1 #
         (case m (a + 2) of None \<Rightarrow> [] | Some b2 \<Rightarrow> b2 #
           (case m (a + 3) of None \<Rightarrow> [] | Some b3 \<Rightarrow> [b3]))))"
  by (simp add: eval_nat_numeral add.assoc split: option.splits)

lemma upt_4: "[0..<4] = [0, 1, 2, 3]"
  by (simp add: upt_rec)

lemma demo_established: "established demo_state" "base demo_state = 0x7F0000000000"
  by (simp_all add: established_def base_def demo_state_def attached_def)

lemma demo_mem_file: "mem_file demo_state = Some demo_memory"
  by (simp add: demo_state_def attached_def)

lemma attached_not_established: "\<not> established attached"
  by (simp add: established_def attached_def)

lemma demo_memory_at:
  "demo_memory 0x7F00001001E8 = Some 0x00" "demo_memory 0x7F00001001E9 = Some 0x00"
  "demo_memory 0x7F00001001EA = Some 0x96" "demo_memory 0x7F00001001EB = Some 0x42"
  "demo_memory 0x7F00001001A4 = Some 0x00" "demo_memory 0x7F00001001A5 = Some 0x00"
  "demo_memory 0x7F00001001A6 = Some 0x00" "demo_memory 0x7F00001001A7 = Some 0x00"
  "demo_memory 0x7F0000100188 = Some 0x00" "demo_memory 0x7F0000100189 = Some 0x00"
  "demo_memory 0x7F000010018A = Some 0x80" "demo_memory 0x7F000010018B = Some 0x3F"
  by (simp_all add: demo_memory_def)

lemma unpack_samples:
  "unpack_f [0x00, 0x00, 0x96, 0x42] = Inr (Finite False 75)"
  "unpack_f [0x00, 0x00, 0x00, 0x00] = Inr (Finite False 0)"
  "unpack_f [0x00, 0x00, 0x80, 0x3F] = Inr (Finite False 1)"
  by (simp_all add: unpack_f_def pow2_def)

lemma read_memory_eval:
  assumes "mem_file s = Some m" and "seek_error a = None" and "m a \<noteq> None"
  shows "read_memory a 4 s = (Inr (readable_run m a 4), emit (MemRead a 4) s)"
  using assms by (simp add: read_memory_def stream_read_def)

lemma read_float_eval:
  assumes "established s" and "mem_file s = Some m" and "seek_error (base s + a) = None"
    and "m (base s + a) \<noteq> None"
  shows "read_float a s =
           (unpack_f (readable_run m (base s + a) 4), emit (MemRead (base s + a) 4) s)"
  using assms by (simp add: read_float_def read_memory_eval)

lemma write_float_eval:
  assumes "established s" and "mem_file s = Some m" and "seek_error (base s + a) = None"
    and "list_all (\<lambda>i. m (base s + a + int i) \<noteq> None) [0..<length (pack_f v)]"
  shows "write_float a v s =
           (Inr (), emit (MemWrite (base s + a) (pack_f v))
                      (s\<lparr>mem_file := Some (overwrite m (base s + a) (pack_f v))\<rparr>))"
  using assms by (simp add: write_float_def write_memory_def stream_write_def)

lemma demo_read_pointer_raw:
  "read_uint32 MOHH1_CAMBASE_PTR demo_state =
     (Inr 0x8100000, emit (MemRead 0x7F0000D8361C 4) demo_state)"
  by (simp add: read_uint32_def read_int_def read_memory_def demo_established demo_mem_file
        MOHH1_CAMBASE_PTR_def stream_read_def seek_error_def readable_run_4 demo_memory_def)

lemma demo_read_pointer:
  "read_pointer MOHH1_CAMBASE_PTR demo_state =
     (Inr 0x100000, emit (MemRead 0x7F0000D8361C 4) demo_state)"
  by (simp add: read_pointer_def demo_established demo_read_pointer_raw)

lemma demo_read_fov:
  "read_float (0x100000 + MOHH1_FOV) (emit (MemRead 0x7F0000D8361C 4) demo_state) =
     (Inr (Finite False 75),
      emit (MemRead 0x7F00001001E8 4) (emit (MemRead 0x7F0000D8361C 4) demo_state))"
  by (subst read_float_eval [where m = demo_memory])
     (simp_all add: demo_established demo_mem_file MOHH1_FOV_def seek_error_def
        readable_run_4 demo_memory_at unpack_samples)

lemma demo_read_yaw:
  "read_float (0x100000 + MOHH1_CAMX)
     (emit (MemRead 0x7F00001001E8 4) (emit (MemRead 0x7F0000D8361C 4) demo_state)) =
     (Inr (Finite False 0),
      emit (MemRead 0x7F00001001A4 4)
        (emit (MemRead 0x7F00001001E8 4) (emit (MemRead 0x7F0000D8361C 4) demo_state)))"
  by (subst read_float_eval [where m = demo_memory])
     (simp_all add: demo_established demo_mem_file MOHH1_CAMX_def seek_error_def
        readable_run_4 demo_memory_at unpack_samples)

lemma demo_read_pitch:
  "read_float (0x100000 + MOHH1_CAMY)
     (emit (MemRead 0x7F00001001A4 4)
        (emit (MemRead 0x7F00001001E8 4) (emit (MemRead 0x7F0000D8361C 4) demo_state))) =
     (Inr (Finite False 1), demo_after_reads)"
  unfolding demo_after_reads_def
  by (subst read_float_eval [where m = demo_memory])
     (simp_all add: demo_established demo_mem_file MOHH1_CAMY_def seek_error_def
        readable_run_4 demo_memory_at unpack_samples)

lemma scenario_moving: "\<not> feq (literal 100) (Finite False 0)"
  by (simp add: float_eval)

lemma scenario_yaw:
  "fsub (Finite False 0)
     (fmul (fdiv (fmul (literal 100) (fdiv (literal 50) (literal 20))) (literal 20000))
        (Finite False 75)) = Finite True (15 / 16)"
  by (simp add: fsub_def float_eval)

lemma scenario_pitch:
  "fsub (Finite False 1)
     (fmul (fdiv (fmul (Finite False 0) (fdiv (literal 50) (literal 20))) (literal 20000))
        (Finite False 75)) = Finite False 1"
  by (simp add: fsub_def float_eval)

lemma scenario_wrap: "wrap_yaw (Finite True (15 / 16)) = Some (Finite True (15 / 16))"
  by (rule wrap_yaw_in_range) (simp_all add: half_TAU neg_half_TAU fgt_def)

lemma scenario_clamp: "clamp_pitch (Finite False 1) = Finite False 1"
  by (simp add: clamp_pitch_def py_min_def py_max_def fgt_def PITCH_LIMIT_value)

lemma scenario_pack:
  "pack_f (Finite True (15 / 16)) = [0x00, 0x00, 0x70, 0xBF]"
  "pack_f (Finite False 1) = [0x00, 0x00, 0x80, 0x3F]"
  by (simp_all add: pack_f_def sign_bit_def float_eval eval_nat_numeral)

lemma demo_write_yaw:
  "write_float (0x100000 + MOHH1_CAMX) (Finite True (15 / 16)) demo_after_reads =
     (Inr (), emit (MemWrite 0x7F00001001A4 [0x00, 0x00, 0x70, 0xBF])
          (demo_after_reads\<lparr>mem_file :=
             Some (overwrite demo_memory 0x7F00001001A4 [0x00, 0x00, 0x70, 0xBF])\<rparr>))"
  by (subst write_float_eval [where m = demo_memory])
     (simp_all add: demo_after_reads_def demo_established demo_mem_file MOHH1_CAMX_def
        seek_error_def scenario_pack upt_4 demo_memory_at)

lemma demo_write_pitch:
  "write_float (0x100000 + MOHH1_CAMY) (Finite False 1)
     (emit (MemWrite 0x7F00001001A4 [0x00, 0x00, 0x70, 0xBF])
          (demo_after_reads\<lparr>mem_file :=
             Some (overwrite demo_memory 0x7F00001001A4 [0x00, 0x00, 0x70, 0xBF])\<rparr>)) =
     (Inr (), demo_after_inject)"
  unfolding demo_after_inject_def
  by (subst write_float_eval
        [where m = "overwrite demo_memory 0x7F00001001A4 [0x00, 0x00, 0x70, 0xBF]"])
     (simp_all add: demo_after_reads_def demo_established demo_mem_file MOHH1_CAMY_def
        seek_error_def scenario_pack upt_4 demo_memory_at overwrite_def)

lemma demo_inject:
  "psp_mohh1_inject (literal 100) (Finite False 0) (literal 50) False demo_state =
     Some (Inr (), demo_after_inject)"
  by (simp add: psp_mohh1_inject_def demo_established demo_read_pointer demo_read_fov
        demo_read_yaw demo_read_pitch scenario_yaw scenario_pitch scenario_wrap scenario_clamp
        demo_write_yaw demo_write_pitch scenario_moving Let_def)

lemma demo_parse:
  "parse_maps demo_maps =
     Inr [\<lparr>start_addr = 0x400000, region_size = 0x52000, perms = ''r-xp'',
            path = ''/usr/bin/PPSSPPSDL''\<rparr>,
          \<lparr>start_addr = 0x7D0000000000, region_size = 0x2000000, perms = ''rw-s'',
            path = ''/dev/shm/gone''\<rparr>,
          \<lparr>start_addr = 0x7E0000000000, region_size = 0x2000000, perms = ''rw-s'',
            path = ''/dev/shm/zero''\<rparr>,
          \<lparr>start_addr = 0x7F0000000000, region_size = 0x2000000, perms = ''rw-s'',
            path = ''/dev/shm/ppsspp''\<rparr>,
          \<lparr>start_addr = 0x7F1000000000, region_size = 0x2000000, perms = ''rw-s'',
            path = ''/dev/shm/later''\<rparr>]"
  by code_simp

lemma demo_probes:
  "stream_read demo_memory 0x7D0000000000 4 = Inl OSError"
  "stream_read demo_memory 0x7E0000000000 4 = Inr [0, 0, 0, 0]"
  "stream_read demo_memory 0x7F0000000000 4 = Inr [0x7F, 0x45, 0x4C, 0x46]"
  by (simp_all add: stream_read_def seek_error_def readable_run_4 demo_memory_def)

section \<open>The claims\<close>

text \<open>
  C1.  In a tick that reaches the computation (base established, camera pointer not null,
  deltas not both zero, the three floats read), the yaw handed to the normalization is
  \<open>yaw - (dx * (sensitivity / 20.0) / 20000.0 * fov)\<close> and the pitch handed to the clamp is
  \<open>pitch - (dy * (sensitivity / 20.0) / 20000.0 * fov)\<close>, or \<open>pitch + (\<dots>)\<close> when
  \<open>invert_pitch\<close> is set, every operation being the rounded operation on doubles; the
  normalized yaw and the clamped pitch are what is written.  With sensitivity 50.0, fov
  75.0, dx 100 and yaw 0.0 the yaw before normalization is exactly -0.9375.
\<close>

theorem inject_formulas:
  assumes "established s"
    and "read_pointer MOHH1_CAMBASE_PTR s = (Inr cam_base, s1)" and "cam_base \<noteq> 0"
    and "read_float (cam_base + MOHH1_FOV) s1 = (Inr fov, s2)"
    and "\<not> (feq dx (Finite False 0) \<and> feq dy (Finite False 0))"
    and "read_float (cam_base + MOHH1_CAMX) s2 = (Inr yaw, s3)"
    and "read_float (cam_base + MOHH1_CAMY) s3 = (Inr pitch, s4)"
  shows "psp_mohh1_inject dx dy sensitivity invert_pitch s =
           (case wrap_yaw
                   (fsub yaw
                      (fmul (fdiv (fmul dx (fdiv sensitivity (literal 20))) (literal 20000))
                         fov)) of
              None \<Rightarrow> None
            | Some new_yaw \<Rightarrow>
                (case write_float (cam_base + MOHH1_CAMX) new_yaw s4 of
                   (Inl e, s5) \<Rightarrow> Some (Inl e, s5)
                 | (Inr u, s5) \<Rightarrow>
                     Some (write_float (cam_base + MOHH1_CAMY)
                             (clamp_pitch
                                (if invert_pitch
                                 then fadd pitch
                                        (fmul (fdiv (fmul dy (fdiv sensitivity (literal 20)))
                                                 (literal 20000)) fov)
                                 else fsub pitch
                                        (fmul (fdiv (fmul dy (fdiv sensitivity (literal 20)))
                                                 (literal 20000)) fov)))
                             s5))) \<and>
         fsub (literal 0)
           (fmul (fdiv (fmul (literal 100) (fdiv (literal 50) (literal 20))) (literal 20000))
              (literal 75)) = literal (- (9375 / 10000))"
proof
  show "fsub (literal 0)
           (fmul (fdiv (fmul (literal 100) (fdiv (literal 50) (literal 20))) (literal 20000))
              (literal 75)) = literal (- (9375 / 10000))"
    by (simp add: fsub_def float_eval)
next
  have inv: "fsub pitch
               (fmul (fdiv (fmul (fneg dy) (fdiv sensitivity (literal 20))) (literal 20000)) fov) =
             fadd pitch
               (fmul (fdiv (fmul dy (fdiv sensitivity (literal 20))) (literal 20000)) fov)"
    by (simp only: fmul_fneg_left fdiv_fneg_left fsub_fneg)
  show "psp_mohh1_inject dx dy sensitivity invert_pitch s =
           (case wrap_yaw
                   (fsub yaw
                      (fmul (fdiv (fmul dx (fdiv sensitivity (literal 20))) (literal 20000))
                         fov)) of
              None \<Rightarrow> None
            | Some new_yaw \<Rightarrow>
                (case write_float (cam_base + MOHH1_CAMX) new_yaw s4 of
                   (Inl e, s5) \<Rightarrow> Some (Inl e, s5)
                 | (Inr u, s5) \<Rightarrow>
                     Some (write_float (cam_base + MOHH1_CAMY)
                             (clamp_pitch
                                (if invert_pitch
                                 then fadd pitch
                                        (fmul (fdiv (fmul dy (fdiv sensitivity (literal 20)))
                                                 (literal 20000)) fov)
                                 else fsub pitch
                                        (fmul (fdiv (fmul dy (fdiv sensitivity (literal 20)))
                                                 (literal 20000)) fov)))
                             s5)))"
  proof -
    have mv: "(feq dx (Finite False 0) \<and> feq dy (Finite False 0)) = False"
      using assms(5) by simp
    show ?thesis
      using assms(1-4,6,7)
      by (cases invert_pitch)
         (simp_all add: psp_mohh1_inject_def Let_def inv mv
            cong: option.case_cong prod.case_cong sum.case_cong)
  qed
qed

theorem inject_formulas_witness:
  "established demo_state \<and>
   read_pointer MOHH1_CAMBASE_PTR demo_state =
     (Inr 0x100000, emit (MemRead 0x7F0000D8361C 4) demo_state) \<and>
   (0x100000 :: int) \<noteq> 0 \<and>
   read_float (0x100000 + MOHH1_FOV) (emit (MemRead 0x7F0000D8361C 4) demo_state) =
     (Inr (Finite False 75),
      emit (MemRead 0x7F00001001E8 4) (emit (MemRead 0x7F0000D8361C 4) demo_state)) \<and>
   \<not> (feq (literal 100) (Finite False 0) \<and> feq (Finite False 0) (Finite False 0)) \<and>
   read_float (0x100000 + MOHH1_CAMX)
     (emit (MemRead 0x7F00001001E8 4) (emit (MemRead 0x7F0000D8361C 4) demo_state)) =
     (Inr (Finite False 0),
      emit (MemRead 0x7F00001001A4 4)
        (emit (MemRead 0x7F00001001E8 4) (emit (MemRead 0x7F0000D8361C 4) demo_state))) \<and>
   read_float (0x100000 + MOHH1_CAMY)
     (emit (MemRead 0x7F00001001A4 4)
        (emit (MemRead 0x7F00001001E8 4) (emit (MemRead 0x7F0000D8361C 4) demo_state))) =
     (Inr (Finite False 1), demo_after_reads) \<and>
   psp_mohh1_inject (literal 100) (Finite False 0) (literal 50) False demo_state =
     Some (Inr (), demo_after_inject) \<and>
   writes demo_after_inject =
     [MemWrite 0x7F00001001A4 (pack_f (Finite True (9375 / 10000))),
      MemWrite 0x7F0000100188 (pack_f (Finite False 1))]"
proof -
  have nz: "(0x100000 :: int) \<noteq> 0" by simp
  have mv: "\<not> (feq (literal 100) (Finite False 0) \<and> feq (Finite False 0) (Finite False 0))"
    using scenario_moving by simp
  from inject_formulas [OF demo_established(1) demo_read_pointer nz demo_read_fov mv
      demo_read_yaw demo_read_pitch, of "literal 50" False]
  have run: "psp_mohh1_inject (literal 100) (Finite False 0) (literal 50) False demo_state =
     Some (Inr (), demo_after_inject)"
    by (simp add: scenario_yaw scenario_pitch scenario_wrap scenario_clamp demo_write_yaw
          demo_write_pitch)
  have w: "writes demo_after_inject =
     [MemWrite 0x7F00001001A4 (pack_f (Finite True (9375 / 10000))),
      MemWrite 0x7F0000100188 (pack_f (Finite False 1))]"
    using scenario_pack
    by (simp add: writes_def demo_after_inject_def demo_after_reads_def demo_state_def
          attached_def)
  show ?thesis
    using demo_established(1) demo_read_pointer demo_read_fov mv demo_read_yaw demo_read_pitch
      run w by simp
qed

text \<open>
  C2 (as amended).  For every finite yaw of magnitude at most \<open>2 ^ 53\<close> the normalization
  returns a finite result between \<open>-TAU / 2\<close> and \<open>TAU / 2\<close>, hence within \<open>(-pi, pi]\<close>,
  \<open>TAU\<close> being the double 6.2831853.  The result is the input after \<open>n\<close> subtractions of
  \<open>TAU\<close> followed by \<open>k\<close> additions of \<open>TAU\<close>, each rounded to the nearest double: it
  differs from the input by the multiple \<open>(k - n) * TAU\<close> up to these roundings, each at
  most \<open>2 ^ p / 2 ^ 54\<close> when the yaw is below \<open>2 ^ p\<close> in magnitude.  A yaw that is
  already in the range is returned as it is.
\<close>

theorem yaw_normalization:
  assumes "is_finite x" and "\<bar>valof x\<bar> \<le> 2 ^ 53"
  shows "\<exists>y n k. wrap_yaw x = Some y \<and> is_finite y \<and>
           \<bar>valof y\<bar> \<le> valof TAU / 2 \<and> - pi < valof y \<and> valof y \<le> pi \<and>
           y = ((\<lambda>v. fadd v TAU) ^^ k) (((\<lambda>v. fsub v TAU) ^^ n) x) \<and>
           (\<bar>valof x\<bar> \<le> valof TAU / 2 \<longrightarrow> y = x) \<and>
           (\<forall>p. 3 \<le> p \<and> p \<le> 53 \<and> \<bar>valof x\<bar> < 2 ^ p \<longrightarrow>
              \<bar>valof y - (valof x + (real k - real n) * valof TAU)\<bar>
                \<le> real (n + k) * (2 ^ p / 2 ^ 54))"
proof -
  from wrap_yaw_run [OF assms]
  obtain y n k where y: "wrap_yaw x = Some y"
    "y = ((\<lambda>v. fadd v TAU) ^^ k) (((\<lambda>v. fsub v TAU) ^^ n) x)" "is_finite y"
    "- (7074237743944945 / 2251799813685248) \<le> valof y"
    "valof y \<le> 7074237743944945 / 2251799813685248"
    and E: "\<forall>p. 3 \<le> p \<and> p \<le> 53 \<and> \<bar>valof x\<bar> < 2 ^ p \<longrightarrow>
              \<bar>valof y - (valof x + (real k * valof TAU + - (real n * valof TAU)))\<bar>
                \<le> real k * (2 ^ p / 2 ^ 54) + real n * (2 ^ p / 2 ^ 54)"
    by blast
  have r: "\<bar>valof y\<bar> \<le> valof TAU / 2" using y(4,5) by (simp add: TAU_value abs_le_iff)
  then have p: "- pi < valof y" "valof y \<le> pi"
    using half_TAU_less_pi by (simp_all add: abs_le_iff)
  have same: "y = x" if "\<bar>valof x\<bar> \<le> valof TAU / 2"
  proof -
    have b: "- (7074237743944945 / 2251799813685248) \<le> valof x"
      "valof x \<le> 7074237743944945 / 2251799813685248"
      using that by (simp_all add: TAU_value abs_le_iff)
    have "\<not> fgt x (fdiv TAU (Finite False 2))" "\<not> flt x (fdiv (fneg TAU) (Finite False 2))"
      using b assms(1) by (simp_all add: fgt_def half_TAU neg_half_TAU flt_finite)
    then have "wrap_yaw x = Some x" by (rule wrap_yaw_in_range)
    with y(1) show ?thesis by simp
  qed
  have a1: "real k * valof TAU + - (real n * valof TAU) = (real k - real n) * valof TAU"
    by (simp add: algebra_simps)
  have a2: "real k * (2 ^ p / 2 ^ 54) + real n * (2 ^ p / 2 ^ 54) =
      real (n + k) * (2 ^ p / 2 ^ 54)" for p :: nat
    by (simp add: algebra_simps)
  have E': "\<forall>p. 3 \<le> p \<and> p \<le> 53 \<and> \<bar>valof x\<bar> < 2 ^ p \<longrightarrow>
              \<bar>valof y - (valof x + (real k - real n) * valof TAU)\<bar>
                \<le> real (n + k) * (2 ^ p / 2 ^ 54)"
    using E unfolding a1 a2 .
  show ?thesis using y(1,2,3) r p same E' by blast
qed

theorem yaw_normalization_witness:
  "is_finite (literal 20) \<and> \<bar>valof (literal 20)\<bar> \<le> 2 ^ 53 \<and>
   wrap_yaw (literal 20) = Some (Finite False (647642452508823 / 562949953421312)) \<and>
   - pi < 647642452508823 / 562949953421312 \<and> 647642452508823 / 562949953421312 \<le> pi \<and>
   \<bar>647642452508823 / 562949953421312\<bar> \<le> valof TAU / 2"
proof -
  have l: "literal 20 = Finite False 20" by (simp add: float_eval)
  have h: "is_finite (literal 20)" "\<bar>valof (literal 20)\<bar> \<le> 2 ^ 53" by (simp_all add: l)
  from yaw_normalization [OF h] wrap_yaw_20
  have "- pi < 647642452508823 / 562949953421312 \<and> 647642452508823 / 562949953421312 \<le> pi \<and>
     \<bar>647642452508823 / 562949953421312\<bar> \<le> valof TAU / 2"
    by auto
  then show ?thesis using h wrap_yaw_20 by simp
qed

text \<open>
  C2 as stated fails.  A NaN yaw is returned as NaN, which lies in no interval; for the
  finite yaw \<open>2 ^ 60\<close> the subtraction of \<open>TAU\<close> rounds back to \<open>2 ^ 60\<close> and no result is
  produced; and the result for the yaw 20.0, three rounded subtractions later, differs
  from 20.0 by \<open>3 * TAU - 2 ^ -50\<close>, which is neither a whole multiple of \<open>TAU\<close> nor one
  of \<open>2 * pi\<close>: the quotient lies strictly between -3 and -2.
\<close>

theorem yaw_normalization_fails:
  "wrap_yaw NaN = Some NaN \<and> wrap_yaw (literal (2 ^ 60)) = None \<and>
   wrap_yaw (literal 20) = Some (Finite False (647642452508823 / 562949953421312)) \<and>
   - 3 < (647642452508823 / 562949953421312 - 20) / valof TAU \<and>
   (647642452508823 / 562949953421312 - 20) / valof TAU < - 2 \<and>
   - 3 < (647642452508823 / 562949953421312 - 20) / (2 * pi) \<and>
   (647642452508823 / 562949953421312 - 20) / (2 * pi) < - 2"
proof -
  have t: "- 3 < (647642452508823 / 562949953421312 - 20) / valof TAU"
    "(647642452508823 / 562949953421312 - 20) / valof TAU < - 2"
    by (simp_all add: TAU_value)
  have "pi < 4" by (rule pi_less_4)
  then have p1: "(647642452508823 / 562949953421312 - 20) / (2 * pi) < - 2"
    by (simp add: field_simps)
  have p2: "- 3 < (647642452508823 / 562949953421312 - 20) / (2 * pi)"
    using pi_lower by (simp add: field_simps)
  show ?thesis using wrap_yaw_NaN wrap_yaw_huge(2) wrap_yaw_20 t p1 p2 by simp
qed




text \<open>
  C4.  For a parsed mapping table (of regions below \<open>2 ^ 64\<close> bytes, as the addresses of a
  process are), the region scanner returns the start address of the first region, in the
  order of the table, whose size is at least 1 MiB and within 10% of 32 MiB and whose
  first bytes, as read at its start, are not all zero with the first two both nonzero; it
  sets the base to that address, and the reads it performs are those of the candidates up
  to and including the accepted one, none after it.  When no region qualifies it returns
  not-found and leaves the base as it was.
\<close>

theorem find_game_memory_first_match:
  assumes "mem_file s = Some m" and "maps_file s = Some lines"
    and "parse_maps lines = Inr regions"
    and "\<forall>r \<in> set regions. region_size r < 2 ^ 64"
  shows "fst (find_game_memory s) =
           Inr (map_option start_addr (find (qualifies m) regions)) \<and>
         game_memory_base (snd (find_game_memory s)) =
           (case find (qualifies m) regions of
              None \<Rightarrow> game_memory_base s
            | Some r \<Rightarrow> Some (start_addr r)) \<and>
         accesses (snd (find_game_memory s)) =
           accesses s @ map (\<lambda>r. MemRead (start_addr r) 4) (examined m regions)"
proof -
  have "mem_file (emit (Print ScanningRegions) s) = Some m" using assms(1) by simp
  from scan_regions_first [OF this assms(4)] show ?thesis
    using assms(2,3) by (simp add: find_game_memory_def cong: option.case_cong)
qed

theorem find_game_memory_first_match_witness:
  "mem_file attached = Some demo_memory \<and> maps_file attached = Some demo_maps \<and>
   parse_maps demo_maps =
     Inr [\<lparr>start_addr = 0x400000, region_size = 0x52000, perms = ''r-xp'',
            path = ''/usr/bin/PPSSPPSDL''\<rparr>,
          \<lparr>start_addr = 0x7D0000000000, region_size = 0x2000000, perms = ''rw-s'',
            path = ''/dev/shm/gone''\<rparr>,
          \<lparr>start_addr = 0x7E0000000000, region_size = 0x2000000, perms = ''rw-s'',
            path = ''/dev/shm/zero''\<rparr>,
          \<lparr>start_addr = 0x7F0000000000, region_size = 0x2000000, perms = ''rw-s'',
            path = ''/dev/shm/ppsspp''\<rparr>,
          \<lparr>start_addr = 0x7F1000000000, region_size = 0x2000000, perms = ''rw-s'',
            path = ''/dev/shm/later''\<rparr>] \<and>
   fst (find_game_memory attached) = Inr (Some 0x7F0000000000) \<and>
   game_memory_base (snd (find_game_memory attached)) = Some 0x7F0000000000 \<and>
   accesses (snd (find_game_memory attached)) =
     [MemRead 0x7D0000000000 4, MemRead 0x7E0000000000 4, MemRead 0x7F0000000000 4]"
proof -
  have a: "mem_file attached = Some demo_memory" "maps_file attached = Some demo_maps"
    by (simp_all add: attached_def)
  have sz: "\<forall>r \<in> set [\<lparr>start_addr = 0x400000, region_size = 0x52000, perms = ''r-xp'',
            path = ''/usr/bin/PPSSPPSDL''\<rparr>,
          \<lparr>start_addr = 0x7D0000000000, region_size = 0x2000000, perms = ''rw-s'',
            path = ''/dev/shm/gone''\<rparr>,
          \<lparr>start_addr = 0x7E0000000000, region_size = 0x2000000, perms = ''rw-s'',
            path = ''/dev/shm/zero''\<rparr>,
          \<lparr>start_addr = 0x7F0000000000, region_size = 0x2000000, perms = ''rw-s'',
            path = ''/dev/shm/ppsspp''\<rparr>,
          \<lparr>start_addr = 0x7F1000000000, region_size = 0x2000000, perms = ''rw-s'',
            path = ''/dev/shm/later''\<rparr>]. region_size r < 2 ^ 64"
    by simp
  from find_game_memory_first_match [OF a demo_parse sz]
  show ?thesis
    using a demo_parse
    by (simp add: qualifies_def size_ok_def probe_ok_def MIN_SIZE_def TARGET_SIZE_def
          demo_probes any_nonzero_def accesses_def attached_def)
qed

text \<open>
  C5.  With the game memory base established, \<open>read_pointer\<close> returns 0 when the raw
  32-bit value read at the offset is 0, and the raw value minus \<open>0x08000000\<close> when it is
  not; the state it leaves is the one the read left.
\<close>

theorem read_pointer_rebase:
  assumes "established s" and "read_uint32 address s = (Inr val, s')"
  shows "read_pointer address s = (Inr (if val = 0 then 0 else val - 0x8000000), s')"
  using assms by (simp add: read_pointer_def)

theorem read_pointer_rebase_witness:
  "established demo_state \<and>
   read_uint32 MOHH1_CAMBASE_PTR demo_state =
     (Inr 0x8100000, emit (MemRead 0x7F0000D8361C 4) demo_state) \<and>
   read_pointer MOHH1_CAMBASE_PTR demo_state =
     (Inr 0x100000, emit (MemRead 0x7F0000D8361C 4) demo_state)"
  using read_pointer_rebase [OF demo_established(1) demo_read_pointer_raw]
    demo_established(1) demo_read_pointer_raw by simp




text \<open>
  C7.  While the game memory base is not established (absent, or the address 0), every
  typed accessor and the injection engine returns at once: the reads yield 0 (0.0 for
  \<open>read_float\<close>), the writes and the injection yield nothing, none raises, the only
  effect is the printed report, and the memory stream is not touched.
\<close>

theorem not_established_noop:
  assumes "\<not> established s"
  shows "read_uint32 a s = (Inr 0, emit (Print BaseNotEstablished) s) \<and>
         read_uint16 a s = (Inr 0, emit (Print BaseNotEstablished) s) \<and>
         read_pointer a s = (Inr 0, emit (Print BaseNotEstablished) s) \<and>
         read_float a s = (Inr (Finite False 0), emit (Print BaseNotEstablished) s) \<and>
         write_uint16 a v s = (Inr (), emit (Print BaseNotEstablished) s) \<and>
         write_float a x s = (Inr (), emit (Print BaseNotEstablished) s) \<and>
         psp_mohh1_inject dx dy sensitivity invert_pitch s =
           Some (Inr (), emit (Print BaseNotEstablished) s) \<and>
         accesses (emit (Print BaseNotEstablished) s) = accesses s \<and>
         mem_file (emit (Print BaseNotEstablished) s) = mem_file s"
  using assms
  by (simp add: read_uint32_def read_uint16_def read_pointer_def read_float_def
        write_uint16_def write_float_def psp_mohh1_inject_def)

theorem not_established_noop_witness:
  "\<not> established attached \<and>
   read_uint32 MOHH1_CAMBASE_PTR attached = (Inr 0, emit (Print BaseNotEstablished) attached) \<and>
   read_uint16 0 attached = (Inr 0, emit (Print BaseNotEstablished) attached) \<and>
   read_pointer MOHH1_CAMBASE_PTR attached = (Inr 0, emit (Print BaseNotEstablished) attached) \<and>
   read_float MOHH1_FOV attached = (Inr (Finite False 0), emit (Print BaseNotEstablished) attached) \<and>
   write_uint16 0 7 attached = (Inr (), emit (Print BaseNotEstablished) attached) \<and>
   write_float MOHH1_CAMX (Finite False 1) attached =
     (Inr (), emit (Print BaseNotEstablished) attached) \<and>
   psp_mohh1_inject (Finite False 100) (Finite False 3) (Finite False 50) False attached =
     Some (Inr (), emit (Print BaseNotEstablished) attached) \<and>
   accesses (emit (Print BaseNotEstablished) attached) = [] \<and>
   mem_file (emit (Print BaseNotEstablished) attached) = Some demo_memory"
  using not_established_noop [OF attached_not_established, of MOHH1_CAMBASE_PTR]
    not_established_noop [OF attached_not_established, of 0 7]
    not_established_noop [OF attached_not_established, of MOHH1_FOV]
    not_established_noop [OF attached_not_established, of MOHH1_CAMX 0 "Finite False 1"
      "Finite False 100" "Finite False 3" "Finite False 50" False]
    attached_not_established
  by (simp add: accesses_def attached_def)



text \<open>
  C9.  No failure path modifies the game memory base.  Region discovery sets the base to
  the start of the region it accepts, and leaves it as it was when it returns not-found or
  raises; the raw and typed reads and writes, the pointer dereference and an injection
  tick that returns (normally or with an error) leave it as it was.
\<close>

theorem base_only_set_by_discovery:
  "(find_game_memory s = (r, s') \<longrightarrow>
      (case r of
         Inl e \<Rightarrow> game_memory_base s' = game_memory_base s
       | Inr None \<Rightarrow> game_memory_base s' = game_memory_base s
       | Inr (Some start) \<Rightarrow> game_memory_base s' = Some start)) \<and>
   game_memory_base (snd (read_memory a n s)) = game_memory_base s \<and>
   game_memory_base (snd (write_memory a data s)) = game_memory_base s \<and>
   game_memory_base (snd (read_uint32 a s)) = game_memory_base s \<and>
   game_memory_base (snd (read_uint16 a s)) = game_memory_base s \<and>
   game_memory_base (snd (read_float a s)) = game_memory_base s \<and>
   game_memory_base (snd (read_pointer a s)) = game_memory_base s \<and>
   game_memory_base (snd (write_uint16 a v s)) = game_memory_base s \<and>
   game_memory_base (snd (write_float a x s)) = game_memory_base s \<and>
   (psp_mohh1_inject dx dy sensitivity invert_pitch s = Some (r2, s2) \<longrightarrow>
      game_memory_base s2 = game_memory_base s)"
proof -
  have "game_memory_base (snd (read_memory a n s)) = game_memory_base s"
    using read_memory_read_only [of a n s] by (cases "read_memory a n s") (simp add: read_only_def)
  moreover have "game_memory_base (snd (write_memory a data s)) = game_memory_base s"
    using write_memory_base [of a data s] by (cases "write_memory a data s") simp
  moreover have "game_memory_base (snd (read_uint32 a s)) = game_memory_base s"
    using read_uint32_read_only [of a s] by (cases "read_uint32 a s") (simp add: read_only_def)
  moreover have "game_memory_base (snd (read_uint16 a s)) = game_memory_base s"
    using read_uint16_read_only [of a s] by (cases "read_uint16 a s") (simp add: read_only_def)
  moreover have "game_memory_base (snd (read_float a s)) = game_memory_base s"
    using read_float_read_only [of a s] by (cases "read_float a s") (simp add: read_only_def)
  moreover have "game_memory_base (snd (read_pointer a s)) = game_memory_base s"
    using read_pointer_read_only [of a s] by (cases "read_pointer a s") (simp add: read_only_def)
  moreover have "game_memory_base (snd (write_uint16 a v s)) = game_memory_base s"
    using write_uint16_base [of a v s] by (cases "write_uint16 a v s") simp
  moreover have "game_memory_base (snd (write_float a x s)) = game_memory_base s"
    using write_float_base [of a x s] by (cases "write_float a x s") simp
  ultimately show ?thesis
    using find_game_memory_base [of s r s'] inject_base [of dx dy sensitivity invert_pitch s r2 s2]
    by simp
qed

theorem base_only_set_by_discovery_witness:
  "find_game_memory (demo_state\<lparr>maps_file := Some []\<rparr>) =
     (Inr None, emit (Print NoSuitableRegion)
                  (emit (Print ScanningRegions) (demo_state\<lparr>maps_file := Some []\<rparr>))) \<and>
   game_memory_base (emit (Print NoSuitableRegion)
                  (emit (Print ScanningRegions) (demo_state\<lparr>maps_file := Some []\<rparr>))) =
     Some 0x7F0000000000 \<and>
   psp_mohh1_inject (literal 100) (Finite False 0) (literal 50) False demo_state =
     Some (Inr (), demo_after_inject) \<and>
   game_memory_base demo_after_inject = Some 0x7F0000000000"
proof -
  let ?s = "demo_state\<lparr>maps_file := Some []\<rparr>"
  have f: "find_game_memory ?s =
     (Inr None, emit (Print NoSuitableRegion) (emit (Print ScanningRegions) ?s))"
    by (simp add: find_game_memory_def)
  have b: "game_memory_base ?s = Some 0x7F0000000000" "game_memory_base demo_state = Some 0x7F0000000000"
    by (simp_all add: demo_state_def attached_def)
  from base_only_set_by_discovery [of ?s "Inr None"
      "emit (Print NoSuitableRegion) (emit (Print ScanningRegions) ?s)"] f b(1)
  have 1: "game_memory_base (emit (Print NoSuitableRegion) (emit (Print ScanningRegions) ?s)) =
     Some 0x7F0000000000"
    by simp
  from base_only_set_by_discovery [of demo_state _ _ _ _ _ _ _ "literal 100" "Finite False 0"
      "literal 50" False "Inr ()" demo_after_inject] demo_inject b(2)
  have 2: "game_memory_base demo_after_inject = Some 0x7F0000000000"
    by simp
  show ?thesis using f 1 2 demo_inject by simp
qed

text \<open>
  C10 (as amended).  For every finite yaw of magnitude at most \<open>2 ^ 53\<close> handed to the
  normalization, the two loops terminate.  They do not terminate for the two infinities.
\<close>

theorem yaw_loops_terminate:
  "(is_finite x \<and> \<bar>valof x\<bar> \<le> 2 ^ 53 \<longrightarrow> (\<exists>y. wrap_yaw x = Some y)) \<and>
   wrap_yaw (Infinity False) = None \<and> wrap_yaw (Infinity True) = None"
proof -
  have "\<exists>y. wrap_yaw x = Some y" if "is_finite x" "\<bar>valof x\<bar> \<le> 2 ^ 53"
    using wrap_yaw_run [OF that] by blast
  then show ?thesis using wrap_yaw_infinite by blast
qed

theorem yaw_loops_terminate_witness:
  "is_finite (Finite True (2 ^ 53)) \<and> \<bar>valof (Finite True (2 ^ 53))\<bar> \<le> 2 ^ 53 \<and>
   wrap_yaw (Finite True (2 ^ 53)) \<noteq> None"
proof -
  have h: "is_finite (Finite True (2 ^ 53)) \<and> \<bar>valof (Finite True (2 ^ 53))\<bar> \<le> 2 ^ 53"
    by simp
  with yaw_loops_terminate [of "Finite True (2 ^ 53)"] show ?thesis by auto
qed

text \<open>
  C10 as stated fails: the yaw \<open>1e17\<close> is finite, but \<open>1e17 - TAU\<close> rounds to \<open>1e17\<close>, so
  the first loop never ends.
\<close>

theorem yaw_loop_runs_forever:
  "is_finite (literal (10 ^ 17)) \<and> wrap_yaw (literal (10 ^ 17)) = None"
  using wrap_yaw_huge(1) by (simp add: float_eval)

end
